theory Spec2Isabelle
  imports Complex_Main "HOL-Library.Sublist"
begin

section \<open>Python values\<close>

text \<open>
  The pipeline moves JSON documents between its stages, so the values of the model are the
  values \<^verbatim>\<open>json.loads\<close> produces. A Python \<^verbatim>\<open>str\<close> is a \<^typ>\<open>string\<close> whose characters are
  read as the code points 0..255; a \<^verbatim>\<open>dict\<close> is an association list in insertion order
  with distinct keys; a \<^verbatim>\<open>float\<close> is a sign and an exact rational magnitude (or an
  infinity, or NaN).
\<close>

datatype pyfloat = Finite bool rat | Infinite bool | NaN

datatype json =
    JNull
  | JBool bool
  | JInt int
  | JFloat pyfloat
  | JString string
  | JArray "json list"
  | JObject "(string \<times> json) list"

datatype error =
    AttributeError
  | TypeError
  | KeyError
  | ValueError
  | OverflowError
  | NameError string
  | JSONDecodeError
  | FileNotFoundError
  | CollaboratorError

subsection \<open>Strings\<close>

text \<open>\<^verbatim>\<open>str.isspace\<close> on the code points below 256.\<close>

definition is_space :: "char \<Rightarrow> bool" where
  "is_space c =
     (let n = (of_char c :: nat)
      in (9 \<le> n \<and> n \<le> 13) \<or> (28 \<le> n \<and> n \<le> 32) \<or> n = 133 \<or> n = 160)"

definition py_strip :: "string \<Rightarrow> string" where
  "py_strip s = rev (dropWhile is_space (rev (dropWhile is_space s)))"

definition py_strip_chars :: "string \<Rightarrow> string \<Rightarrow> string" where
  "py_strip_chars cs s =
     rev (dropWhile (\<lambda>c. c \<in> set cs) (rev (dropWhile (\<lambda>c. c \<in> set cs) s)))"

definition lower_char :: "char \<Rightarrow> char" where
  "lower_char c =
     (let n = (of_char c :: nat)
      in if (65 \<le> n \<and> n \<le> 90) \<or> (192 \<le> n \<and> n \<le> 214) \<or> (216 \<le> n \<and> n \<le> 222)
         then char_of (n + 32) else c)"

definition py_lower :: "string \<Rightarrow> string" where
  "py_lower s = map lower_char s"

definition startswith :: "string \<Rightarrow> string \<Rightarrow> bool" where
  "startswith s p = (take (length p) s = p)"

subsection \<open>Dictionaries and dynamic typing\<close>

definition dict_get :: "(string \<times> json) list \<Rightarrow> string \<Rightarrow> json \<Rightarrow> json" where
  "dict_get d k dflt = (case map_of d k of None \<Rightarrow> dflt | Some v \<Rightarrow> v)"

text \<open>\<^verbatim>\<open>d[k] = v\<close>: an existing key keeps its position, a new key goes last.\<close>

fun dict_set :: "string \<Rightarrow> json \<Rightarrow> (string \<times> json) list \<Rightarrow> (string \<times> json) list" where
  "dict_set k v [] = [(k, v)]"
| "dict_set k v (p # ps) = (if fst p = k then (k, v) # ps else p # dict_set k v ps)"

text \<open>\<^verbatim>\<open>x.get(k, dflt)\<close> on a value that need not be a dict.\<close>

definition py_get :: "json \<Rightarrow> string \<Rightarrow> json \<Rightarrow> error + json" where
  "py_get x k dflt = (case x of JObject d \<Rightarrow> Inr (dict_get d k dflt) | _ \<Rightarrow> Inl AttributeError)"

text \<open>Python's truth value of a JSON value.\<close>

fun truthy :: "json \<Rightarrow> bool" where
  "truthy JNull = False"
| "truthy (JBool b) = b"
| "truthy (JInt n) = (n \<noteq> 0)"
| "truthy (JFloat (Finite s q)) = (q \<noteq> 0)"
| "truthy (JFloat _) = True"
| "truthy (JString s) = (s \<noteq> [])"
| "truthy (JArray xs) = (xs \<noteq> [])"
| "truthy (JObject d) = (d \<noteq> [])"

text \<open>Sequencing of a step that may raise.\<close>

definition ebind :: "error + 'a \<Rightarrow> ('a \<Rightarrow> error + 'b) \<Rightarrow> error + 'b" where
  "ebind m f = (case m of Inl e \<Rightarrow> Inl e | Inr x \<Rightarrow> f x)"

section \<open>Numbers\<close>

text \<open>
  Python's \<^verbatim>\<open>int\<close> is unbounded (\<^typ>\<open>int\<close>). A \<^verbatim>\<open>float\<close> is an IEEE-754 double: the finite
  ones are the rationals \<open>m * 2 ^ e\<close> with \<open>m < 2 ^ 53\<close> and \<open>e \<ge> - 1074\<close>, kept exactly,
  with their sign apart so that \<open>-0.0\<close> is a value. Every operation computes the exact
  rational result and rounds it to the nearest double, ties to even.
\<close>

definition pow_int :: "rat \<Rightarrow> int \<Rightarrow> rat" where
  "pow_int b e = (if 0 \<le> e then b ^ nat e else 1 / b ^ nat (- e))"

text \<open>For evaluation, the power is computed by squaring.\<close>

lemma pow_int_code [code]:
  "pow_int b e =
     (if e < 0 then 1 / pow_int b (- e)
      else if e = 0 then 1
      else if even e then (let h = pow_int b (e div 2) in h * h)
      else b * pow_int b (e - 1))"
proof -
  have neg: "pow_int b e = 1 / pow_int b (- e)" if "e < 0"
    using that by (simp add: pow_int_def)
  have ev: "pow_int b e = pow_int b (e div 2) * pow_int b (e div 2)" if "0 < e" "even e"
  proof -
    from that obtain k where k: "e = 2 * k" "0 < k"
      by (auto elim: evenE)
    then have "nat e = nat k + nat k" by simp
    then show ?thesis
      using k by (simp add: pow_int_def power_add)
  qed
  have od: "pow_int b e = b * pow_int b (e - 1)" if "0 < e" "odd e"
  proof -
    from that have "nat e = Suc (nat (e - 1))" by simp
    then show ?thesis
      using that by (simp add: pow_int_def)
  qed
  show ?thesis
    using neg ev od by (auto simp: Let_def pow_int_def)
qed

definition round_half_even :: "rat \<Rightarrow> int" where
  "round_half_even x =
     (let f = \<lfloor>x\<rfloor>; r = x - of_int f
      in if r < 1 / 2 then f else if 1 / 2 < r then f + 1 else if even f then f else f + 1)"

text \<open>The number of digits of a positive integer in base \<open>b\<close>.\<close>

function ndigits :: "int \<Rightarrow> int \<Rightarrow> int" where
  "ndigits b x = (if 1 < b \<and> 0 < x then 1 + ndigits b (x div b) else 0)"
  by pat_completeness auto
termination
  by (relation "measure (\<lambda>(b, x). nat x)") (auto simp: int_div_less_self)

declare ndigits.simps [simp del]

text \<open>The integer part of the logarithm of a positive rational: the quotient of a
  numerator of \<open>i\<close> digits by a denominator of \<open>j\<close> digits lies strictly between
  \<open>b ^ (i - j - 1)\<close> and \<open>b ^ (i - j + 1)\<close>.\<close>

definition floor_log :: "int \<Rightarrow> rat \<Rightarrow> int" where
  "floor_log b q =
     (let (n, d) = quotient_of q;
          e = ndigits b n - ndigits b d
      in if pow_int (of_int b) e \<le> q then e else e - 1)"

definition round_double :: "rat \<Rightarrow> rat" where
  "round_double q =
     (if q = 0 then 0
      else let e = max (floor_log 2 q) (- 1022);
               ulp = pow_int 2 (e - 52)
           in of_int (round_half_even (q / ulp)) * ulp)"

text \<open>The double nearest to a magnitude; beyond the largest double it is an infinity.\<close>

definition to_float :: "bool \<Rightarrow> rat \<Rightarrow> pyfloat" where
  "to_float neg q =
     (let r = round_double q in if pow_int 2 1024 \<le> r then Infinite neg else Finite neg r)"

subsection \<open>Decimal text\<close>

definition is_digit :: "char \<Rightarrow> bool" where
  "is_digit c = (let n = (of_char c :: nat) in 48 \<le> n \<and> n \<le> 57)"

definition int_of_digits :: "string \<Rightarrow> int" where
  "int_of_digits ds = foldl (\<lambda>n c. 10 * n + ((of_char c :: int) - 48)) 0 ds"

definition digit_char :: "int \<Rightarrow> char" where
  "digit_char n = char_of (48 + n)"

text \<open>The decimal digits of a non-negative integer.\<close>

function digits_of :: "int \<Rightarrow> string" where
  "digits_of n =
     (if n < 10 then [digit_char n] else digits_of (n div 10) @ [digit_char (n mod 10)])"
  by pat_completeness auto
termination
  by (relation "measure nat") auto

declare digits_of.simps [simp del]

text \<open>\<^verbatim>\<open>str(n)\<close> of an integer.\<close>

definition str_of_int :: "int \<Rightarrow> string" where
  "str_of_int i = (if i < 0 then CHR ''-'' # digits_of (- i) else digits_of i)"

text \<open>The value of a decimal literal: integer digits, fraction digits, exponent.\<close>

definition decimal_value :: "string \<Rightarrow> string \<Rightarrow> int \<Rightarrow> rat" where
  "decimal_value ip fp ex =
     of_int (int_of_digits (ip @ fp)) * pow_int 10 (ex - int (length fp))"

subsection \<open>Formatting a float\<close>

text \<open>\<^verbatim>\<open>format(x, '.Nf')\<close>: the exact value rounded to \<open>N\<close> decimals, ties to even.\<close>

definition format_fixed :: "nat \<Rightarrow> pyfloat \<Rightarrow> string" where
  "format_fixed n x =
     (case x of
        NaN \<Rightarrow> ''nan''
      | Infinite neg \<Rightarrow> (if neg then ''-inf'' else ''inf'')
      | Finite neg q \<Rightarrow>
          (let m = round_half_even (q * 10 ^ n);
               ipart = digits_of (m div 10 ^ n);
               fpart = digits_of (m mod 10 ^ n);
               padded = replicate (n - length fpart) CHR ''0'' @ fpart
           in (if neg then ''-'' else []) @ ipart @ (if n = 0 then [] else CHR ''.'' # padded)))"

text \<open>
  \<^verbatim>\<open>repr(x)\<close>: the shortest decimal that reads back as \<open>x\<close> (the closest one to \<open>x\<close> among
  the shortest), in positional notation when the decimal point falls within
  \<open>-4 < decpt \<le> 16\<close> and in exponent notation otherwise.
\<close>

definition repr_candidate :: "rat \<Rightarrow> nat \<Rightarrow> (int \<times> int) option" where
  "repr_candidate q n =
     (let k = floor_log 10 q - int n + 1;
          s = q / pow_int 10 k;
          lo = \<lfloor>s\<rfloor>;
          hi = lo + 1;
          oklo = (round_double (of_int lo * pow_int 10 k) = q);
          okhi = (round_double (of_int hi * pow_int 10 k) = q)
      in if oklo \<and> okhi then Some (round_half_even s, k)
         else if oklo then Some (lo, k)
         else if okhi then Some (hi, k)
         else None)"

fun repr_search :: "nat \<Rightarrow> nat \<Rightarrow> rat \<Rightarrow> int \<times> int" where
  "repr_search 0 n q = (round_half_even (q / pow_int 10 (floor_log 10 q - int n + 1)),
                        floor_log 10 q - int n + 1)"
| "repr_search (Suc fuel) n q =
     (case repr_candidate q n of
        Some r \<Rightarrow> r
      | None \<Rightarrow> repr_search fuel (Suc n) q)"

definition format_repr :: "string \<Rightarrow> int \<Rightarrow> string" where
  "format_repr ds decpt =
     (let n = int (length ds) in
      if decpt \<le> - 4 \<or> 16 < decpt then
        (let ex = decpt - 1;
             ed = digits_of \<bar>ex\<bar>
         in take 1 ds @ (if length ds = 1 then [] else CHR ''.'' # drop 1 ds) @ ''e''
            @ (if ex < 0 then ''-'' else ''+'') @ (if length ed < 2 then CHR ''0'' # ed else ed))
      else if decpt \<le> 0 then ''0.'' @ replicate (nat (- decpt)) CHR ''0'' @ ds
      else if n \<le> decpt then ds @ replicate (nat (decpt - n)) CHR ''0'' @ ''.0''
      else take (nat decpt) ds @ ''.'' @ drop (nat decpt) ds)"

definition float_repr :: "pyfloat \<Rightarrow> string" where
  "float_repr x =
     (case x of
        NaN \<Rightarrow> ''nan''
      | Infinite neg \<Rightarrow> (if neg then ''-inf'' else ''inf'')
      | Finite neg q \<Rightarrow>
          (if neg then ''-'' else []) @
          (if q = 0 then ''0.0''
           else let (m, k) = repr_search 16 1 q;
                    all = digits_of m;
                    ds = rev (dropWhile (\<lambda>c. c = CHR ''0'') (rev all))
                in format_repr ds (int (length all) + k)))"

section \<open>JSON text\<close>

subsection \<open>Decoding: \<^verbatim>\<open>json.loads\<close>\<close>

text \<open>
  The decoder of the standard library, as a tokenizer followed by a pushdown automaton over
  the tokens. It accepts what \<^verbatim>\<open>json.loads\<close> accepts with its default arguments (white
  space between tokens, the literals \<open>NaN\<close>, \<open>Infinity\<close> and \<open>-Infinity\<close>, no control
  character inside a string, no trailing comma, nothing after the value), and a repeated
  key keeps its first position and its last value. An escape \<^verbatim>\<open>\uXXXX\<close> for a code point
  above 255 is outside the alphabet of the model and is read as a question mark. The
  interpreter's limits (recursion depth, digits of an integer) are not modelled.
\<close>

definition is_json_ws :: "char \<Rightarrow> bool" where
  "is_json_ws c = (let n = (of_char c :: nat) in n = 32 \<or> n = 9 \<or> n = 10 \<or> n = 13)"

definition hex_value :: "char \<Rightarrow> int option" where
  "hex_value c =
     (let n = (of_char c :: int)
      in if 48 \<le> n \<and> n \<le> 57 then Some (n - 48)
         else if 97 \<le> n \<and> n \<le> 102 then Some (n - 87)
         else if 65 \<le> n \<and> n \<le> 70 then Some (n - 55)
         else None)"

definition hex4 :: "string \<Rightarrow> int option" where
  "hex4 cs =
     (case map hex_value cs of
        [Some a, Some b, Some c, Some d] \<Rightarrow> Some (((a * 16 + b) * 16 + c) * 16 + d)
      | _ \<Rightarrow> None)"

definition code_point_char :: "int \<Rightarrow> char" where
  "code_point_char n = (if n < 256 then char_of n else CHR ''?'')"

definition unescape :: "char \<Rightarrow> char option" where
  "unescape e =
     (if e = CHR 0x22 then Some (CHR 0x22)
      else if e = CHR 0x5C then Some (CHR 0x5C)
      else if e = CHR ''/'' then Some (CHR ''/'')
      else if e = CHR ''b'' then Some (CHR 0x08)
      else if e = CHR ''f'' then Some (CHR 0x0C)
      else if e = CHR ''n'' then Some (CHR 0x0A)
      else if e = CHR ''r'' then Some (CHR 0x0D)
      else if e = CHR ''t'' then Some (CHR 0x09)
      else None)"

text \<open>One \<^verbatim>\<open>\u\<close> escape, given the text after the \<open>u\<close>: the character and the number of
  characters read. A high surrogate followed by an escaped low surrogate is one character.\<close>

definition unicode_escape :: "string \<Rightarrow> (char \<times> nat) option" where
  "unicode_escape cs =
     (case hex4 (take 4 cs) of
        None \<Rightarrow> None
      | Some uni \<Rightarrow>
          if 0xD800 \<le> uni \<and> uni \<le> 0xDBFF \<and> take 2 (drop 4 cs) = [CHR 0x5C, CHR ''u''] then
            (case hex4 (take 4 (drop 6 cs)) of
               None \<Rightarrow> None
             | Some uni2 \<Rightarrow>
                 if 0xDC00 \<le> uni2 \<and> uni2 \<le> 0xDFFF then Some (CHR ''?'', 10)
                 else Some (code_point_char uni, 4))
          else Some (code_point_char uni, 4))"

text \<open>The text of a string literal after its opening quote: the decoded string and what
  follows the closing quote.\<close>

function scanstring :: "string \<Rightarrow> string \<Rightarrow> (string \<times> string) option" where
  "scanstring acc [] = None"
| "scanstring acc (c # cs) =
     (if c = CHR 0x22 then Some (rev acc, cs)
      else if c = CHR 0x5C then
        (case cs of
           [] \<Rightarrow> None
         | e # cs' \<Rightarrow>
             if e = CHR ''u'' then
               (case unicode_escape cs' of
                  None \<Rightarrow> None
                | Some (x, n) \<Rightarrow> scanstring (x # acc) (drop n cs'))
             else
               (case unescape e of
                  None \<Rightarrow> None
                | Some x \<Rightarrow> scanstring (x # acc) cs'))
      else if (of_char c :: nat) < 32 then None
      else scanstring (c # acc) cs)"
  by pat_completeness auto
termination
  by (relation "measure (\<lambda>(acc, cs). length cs)") auto

lemma scanstring_shorter:
  "scanstring acc cs = Some (s, rest) \<Longrightarrow> length rest < Suc (length cs)"
proof (induction acc cs rule: scanstring.induct)
  case (1 acc)
  then show ?case by simp
next
  case (2 acc c cs)
  show ?case
  proof (cases "c = CHR 0x22")
    case True
    with "2.prems" show ?thesis by simp
  next
    case quote: False
    show ?thesis
    proof (cases "c = CHR 0x5C")
      case True
      with quote "2.prems" obtain e cs' where cs: "cs = e # cs'"
        by (auto split: list.splits)
      show ?thesis
      proof (cases "e = CHR ''u''")
        case u: True
        with quote True cs "2.prems" obtain x n where
          ue: "unicode_escape cs' = Some (x, n)"
          and r: "scanstring (x # acc) (drop n cs') = Some (s, rest)"
          by (auto split: option.splits)
        from "2.IH"(1)[OF quote True cs u ue refl r]
        have "length rest < Suc (length (drop n cs'))" .
        then show ?thesis using cs by simp
      next
        case nu: False
        with quote True cs "2.prems" obtain x where
          ue: "unescape e = Some x"
          and r: "scanstring (x # acc) cs' = Some (s, rest)"
          by (auto split: option.splits)
        from "2.IH"(2)[OF quote True cs nu ue r]
        show ?thesis using cs by simp
      qed
    next
      case False
      with quote "2.prems" have "\<not> (of_char c :: nat) < 32"
        and r: "scanstring (c # acc) cs = Some (s, rest)"
        by (auto split: if_splits)
      from "2.IH"(3)[OF quote False this]
      show ?thesis by simp
    qed
  qed
qed

text \<open>A number, by the pattern \<^verbatim>\<open>(-?(?:0|[1-9][0-9]*))(\.[0-9]+)?([eE][-+]?[0-9]+)?\<close>: an
  integer when it has neither fraction nor exponent, a float otherwise.\<close>

definition lex_fraction :: "string \<Rightarrow> string \<times> string" where
  "lex_fraction r1 =
     (case r1 of
        c # r \<Rightarrow>
          if c = CHR ''.'' \<and> takeWhile is_digit r \<noteq> []
          then (takeWhile is_digit r, dropWhile is_digit r)
          else ([], r1)
      | [] \<Rightarrow> ([], r1))"

definition lex_exponent :: "string \<Rightarrow> int option \<times> string" where
  "lex_exponent r2 =
     (case r2 of
        c # r \<Rightarrow>
          if c = CHR ''e'' \<or> c = CHR ''E'' then
            (let (sg, r') =
                   (case r of
                      s # t \<Rightarrow>
                        if s = CHR ''+'' then (1, t)
                        else if s = CHR ''-'' then (- 1, t)
                        else (1, r)
                    | [] \<Rightarrow> (1, r))
             in if takeWhile is_digit r' = [] then (None, r2)
                else (Some (sg * int_of_digits (takeWhile is_digit r')), dropWhile is_digit r'))
          else (None, r2)
      | [] \<Rightarrow> (None, r2))"

definition lex_number :: "string \<Rightarrow> (json \<times> string) option" where
  "lex_number cs =
     (let (neg, r0) = (case cs of c # r \<Rightarrow> if c = CHR ''-'' then (True, r) else (False, cs)
                       | [] \<Rightarrow> (False, cs))
      in case r0 of
           [] \<Rightarrow> None
         | d # r \<Rightarrow>
             if \<not> is_digit d then None
             else
               (let ip = (if d = CHR ''0'' then [d] else takeWhile is_digit r0);
                    (fp, r2) = lex_fraction (drop (length ip) r0);
                    (ex, r3) = lex_exponent r2
                in if fp = [] \<and> ex = None
                   then Some (JInt ((if neg then - 1 else 1) * int_of_digits ip), r3)
                   else Some (JFloat (to_float neg
                          (decimal_value ip fp (case ex of None \<Rightarrow> 0 | Some e \<Rightarrow> e))), r3)))"

text \<open>A value that is neither a string nor a container, in the order the scanner tries
  them.\<close>

definition lex_scalar :: "string \<Rightarrow> (json \<times> string) option" where
  "lex_scalar cs =
     (if startswith cs ''null'' then Some (JNull, drop 4 cs)
      else if startswith cs ''true'' then Some (JBool True, drop 4 cs)
      else if startswith cs ''false'' then Some (JBool False, drop 5 cs)
      else (case lex_number cs of
              Some r \<Rightarrow> Some r
            | None \<Rightarrow>
                if startswith cs ''NaN'' then Some (JFloat NaN, drop 3 cs)
                else if startswith cs ''Infinity'' then Some (JFloat (Infinite False), drop 8 cs)
                else if startswith cs ''-Infinity'' then Some (JFloat (Infinite True), drop 9 cs)
                else None))"

lemma lex_number_shorter:
  "lex_number cs = Some (v, rest) \<Longrightarrow> length rest < length cs"
proof -
  have frac: "length (snd (lex_fraction r)) \<le> length r" for r
    by (auto simp: lex_fraction_def length_dropWhile_le le_SucI split: list.splits)
  have expo: "length (snd (lex_exponent r)) \<le> length r" for r
    by (auto simp: lex_exponent_def Let_def length_dropWhile_le le_SucI
        intro: order_trans[OF length_dropWhile_le]
        split: list.splits prod.splits if_splits)
  assume a: "lex_number cs = Some (v, rest)"
  obtain neg r0 where nr: "(case cs of c # r \<Rightarrow> if c = CHR ''-'' then (True, r) else (False, cs)
                       | [] \<Rightarrow> (False, cs)) = (neg, r0)"
    by fastforce
  then have r0: "length r0 \<le> length cs"
    by (auto split: list.splits if_splits)
  from a nr obtain d r where dr: "r0 = d # r" and dig: "is_digit d"
    by (auto simp: lex_number_def split: list.splits if_splits)
  define ip where "ip = (if d = CHR ''0'' then [d] else takeWhile is_digit r0)"
  have ip: "0 < length ip"
    using dr dig by (auto simp: ip_def)
  have ip2: "length ip \<le> length r0"
    using dr by (auto simp: ip_def length_takeWhile_le)
  from a nr dr dig have "rest = snd (lex_exponent (snd (lex_fraction (drop (length ip) r0))))"
    by (auto simp: lex_number_def ip_def Let_def split: prod.splits if_splits)
  then have "length rest \<le> length (drop (length ip) r0)"
    using expo frac order_trans by metis
  moreover from ip have "0 < length ip" .
  ultimately show ?thesis using ip2 r0 by (cases ip) auto
qed

lemma startswith_drop_shorter:
  "startswith cs p \<Longrightarrow> p \<noteq> [] \<Longrightarrow> n = length p \<Longrightarrow> length (drop n cs) < length cs"
proof -
  assume a: "startswith cs p" and p: "p \<noteq> []" and n: "n = length p"
  from a have "length (take (length p) cs) = length p"
    by (simp add: startswith_def)
  then have "length p \<le> length cs" by simp
  with p n show ?thesis by (cases p) auto
qed

lemma lex_scalar_shorter:
  assumes "lex_scalar cs = Some (v, rest)"
  shows "length rest < length cs"
  using assms lex_number_shorter[of cs v rest]
    startswith_drop_shorter[of cs "''null''" 4] startswith_drop_shorter[of cs "''true''" 4]
    startswith_drop_shorter[of cs "''false''" 5] startswith_drop_shorter[of cs "''NaN''" 3]
    startswith_drop_shorter[of cs "''Infinity''" 8]
    startswith_drop_shorter[of cs "''-Infinity''" 9]
  by (auto simp: lex_scalar_def split: if_splits option.splits)

datatype token = TLBrace | TRBrace | TLBrack | TRBrack | TColon | TComma | TValue json

function tokenize :: "string \<Rightarrow> token list option" where
  "tokenize [] = Some []"
| "tokenize (c # cs) =
     (if is_json_ws c then tokenize cs
      else if c = CHR ''{'' then map_option (Cons TLBrace) (tokenize cs)
      else if c = CHR ''}'' then map_option (Cons TRBrace) (tokenize cs)
      else if c = CHR ''['' then map_option (Cons TLBrack) (tokenize cs)
      else if c = CHR '']'' then map_option (Cons TRBrack) (tokenize cs)
      else if c = CHR '':'' then map_option (Cons TColon) (tokenize cs)
      else if c = CHR '','' then map_option (Cons TComma) (tokenize cs)
      else if c = CHR 0x22 then
        (case scanstring [] cs of
           None \<Rightarrow> None
         | Some (s, rest) \<Rightarrow> map_option (Cons (TValue (JString s))) (tokenize rest))
      else
        (case lex_scalar (c # cs) of
           None \<Rightarrow> None
         | Some (v, rest) \<Rightarrow> map_option (Cons (TValue v)) (tokenize rest)))"
  by pat_completeness auto
termination
  by (relation "measure length")
     (auto dest: scanstring_shorter lex_scalar_shorter)

text \<open>\<^verbatim>\<open>dict(pairs)\<close>: a repeated key keeps its first position and takes the last value.\<close>

definition dict_of_pairs :: "(string \<times> json) list \<Rightarrow> (string \<times> json) list" where
  "dict_of_pairs pairs = fold (\<lambda>(k, v). dict_set k v) pairs []"

text \<open>
  The automaton: the stack holds the containers that are open, innermost first, each with
  what it has collected (an object also with the key that waits for its value); the state
  says which token may come next.
\<close>

datatype frame = InArray "json list" | InObject "(string \<times> json) list" "string option"

datatype pstate =
    WantValue
  | WantValueOrClose
  | WantKeyOrClose
  | WantKey
  | WantColon
  | AfterValue
  | Done json

fun push_value :: "json \<Rightarrow> frame list \<Rightarrow> (pstate \<times> frame list) option" where
  "push_value v [] = Some (Done v, [])"
| "push_value v (InArray xs # st) = Some (AfterValue, InArray (xs @ [v]) # st)"
| "push_value v (InObject ps (Some k) # st) = Some (AfterValue, InObject (ps @ [(k, v)]) None # st)"
| "push_value v (InObject ps None # st) = None"

fun parse_step :: "pstate \<times> frame list \<Rightarrow> token \<Rightarrow> (pstate \<times> frame list) option" where
  "parse_step (WantValue, st) (TValue v) = push_value v st"
| "parse_step (WantValue, st) TLBrack = Some (WantValueOrClose, InArray [] # st)"
| "parse_step (WantValue, st) TLBrace = Some (WantKeyOrClose, InObject [] None # st)"
| "parse_step (WantValueOrClose, st) (TValue v) = push_value v st"
| "parse_step (WantValueOrClose, st) TLBrack = Some (WantValueOrClose, InArray [] # st)"
| "parse_step (WantValueOrClose, st) TLBrace = Some (WantKeyOrClose, InObject [] None # st)"
| "parse_step (WantValueOrClose, InArray xs # st) TRBrack = push_value (JArray xs) st"
| "parse_step (WantKeyOrClose, InObject ps None # st) (TValue (JString k)) =
     Some (WantColon, InObject ps (Some k) # st)"
| "parse_step (WantKeyOrClose, InObject ps None # st) TRBrace =
     push_value (JObject (dict_of_pairs ps)) st"
| "parse_step (WantKey, InObject ps None # st) (TValue (JString k)) =
     Some (WantColon, InObject ps (Some k) # st)"
| "parse_step (WantColon, st) TColon = Some (WantValue, st)"
| "parse_step (AfterValue, InArray xs # st) TComma = Some (WantValue, InArray xs # st)"
| "parse_step (AfterValue, InArray xs # st) TRBrack = push_value (JArray xs) st"
| "parse_step (AfterValue, InObject ps None # st) TComma = Some (WantKey, InObject ps None # st)"
| "parse_step (AfterValue, InObject ps None # st) TRBrace =
     push_value (JObject (dict_of_pairs ps)) st"
| "parse_step _ _ = None"

fun parse_tokens :: "pstate \<times> frame list \<Rightarrow> token list \<Rightarrow> (pstate \<times> frame list) option" where
  "parse_tokens s [] = Some s"
| "parse_tokens s (t # ts) =
     (case parse_step s t of None \<Rightarrow> None | Some s' \<Rightarrow> parse_tokens s' ts)"

definition json_loads :: "string \<Rightarrow> error + json" where
  "json_loads s =
     (case tokenize s of
        None \<Rightarrow> Inl JSONDecodeError
      | Some ts \<Rightarrow>
          (case parse_tokens (WantValue, []) ts of
             Some (Done v, []) \<Rightarrow> Inr v
           | _ \<Rightarrow> Inl JSONDecodeError))"

subsection \<open>Encoding: \<^verbatim>\<open>json.dump(value, f, ensure_ascii=False, indent=4)\<close>\<close>

definition hex_digit :: "int \<Rightarrow> char" where
  "hex_digit n = (if n < 10 then char_of (48 + n) else char_of (87 + n))"

definition escape_json_char :: "char \<Rightarrow> string" where
  "escape_json_char c =
     (let n = (of_char c :: int)
      in if c = CHR 0x22 then [CHR 0x5C, CHR 0x22]
         else if c = CHR 0x5C then [CHR 0x5C, CHR 0x5C]
         else if c = CHR 0x0A then [CHR 0x5C, CHR ''n'']
         else if c = CHR 0x0D then [CHR 0x5C, CHR ''r'']
         else if c = CHR 0x09 then [CHR 0x5C, CHR ''t'']
         else if c = CHR 0x08 then [CHR 0x5C, CHR ''b'']
         else if c = CHR 0x0C then [CHR 0x5C, CHR ''f'']
         else if n < 32 then [CHR 0x5C, CHR ''u'', CHR ''0'', CHR ''0'',
                              hex_digit (n div 16), hex_digit (n mod 16)]
         else [c])"

definition encode_string :: "string \<Rightarrow> string" where
  "encode_string s = [CHR 0x22] @ concat (map escape_json_char s) @ [CHR 0x22]"

definition encode_float :: "pyfloat \<Rightarrow> string" where
  "encode_float x =
     (case x of
        NaN \<Rightarrow> ''NaN''
      | Infinite neg \<Rightarrow> (if neg then ''-Infinity'' else ''Infinity'')
      | Finite neg q \<Rightarrow> float_repr x)"

fun join :: "string \<Rightarrow> string list \<Rightarrow> string" where
  "join sep [] = []"
| "join sep [x] = x"
| "join sep (x # y # ys) = x @ sep @ join sep (y # ys)"

definition newline_indent :: "nat \<Rightarrow> string" where
  "newline_indent level = CHR 0x0A # replicate (4 * level) CHR '' ''"

fun encode :: "nat \<Rightarrow> json \<Rightarrow> string" where
  "encode level JNull = ''null''"
| "encode level (JBool b) = (if b then ''true'' else ''false'')"
| "encode level (JInt i) = str_of_int i"
| "encode level (JFloat x) = encode_float x"
| "encode level (JString s) = encode_string s"
| "encode level (JArray xs) =
     (if xs = [] then ''[]''
      else ''['' @ newline_indent (Suc level)
           @ join ('','' @ newline_indent (Suc level)) (map (encode (Suc level)) xs)
           @ newline_indent level @ '']'')"
| "encode level (JObject d) =
     (if d = [] then ''{}''
      else ''{'' @ newline_indent (Suc level)
           @ join ('','' @ newline_indent (Suc level))
               (map (\<lambda>kv. encode_string (fst kv) @ '': '' @ encode (Suc level) (snd kv)) d)
           @ newline_indent level @ ''}'')"

definition json_dump :: "json \<Rightarrow> string" where
  "json_dump v = encode 0 v"

subsection \<open>Values as text: \<^verbatim>\<open>str\<close>, \<^verbatim>\<open>repr\<close>, \<^verbatim>\<open>float\<close>\<close>

text \<open>\<^verbatim>\<open>str.isprintable\<close> on the code points below 256.\<close>

definition is_printable :: "char \<Rightarrow> bool" where
  "is_printable c =
     (let n = (of_char c :: nat) in \<not> (n < 32 \<or> (127 \<le> n \<and> n \<le> 160) \<or> n = 173))"

definition repr_char :: "char \<Rightarrow> char \<Rightarrow> string" where
  "repr_char quote c =
     (let n = (of_char c :: int)
      in if c = CHR 0x5C then [CHR 0x5C, CHR 0x5C]
         else if c = quote then [CHR 0x5C, quote]
         else if c = CHR 0x09 then [CHR 0x5C, CHR ''t'']
         else if c = CHR 0x0A then [CHR 0x5C, CHR ''n'']
         else if c = CHR 0x0D then [CHR 0x5C, CHR ''r'']
         else if \<not> is_printable c then [CHR 0x5C, CHR ''x'', hex_digit (n div 16), hex_digit (n mod 16)]
         else [c])"

definition repr_string :: "string \<Rightarrow> string" where
  "repr_string s =
     (let quote = (if CHR 0x27 \<in> set s \<and> CHR 0x22 \<notin> set s then CHR 0x22 else CHR 0x27)
      in [quote] @ concat (map (repr_char quote) s) @ [quote])"

fun py_repr :: "json \<Rightarrow> string" where
  "py_repr JNull = ''None''"
| "py_repr (JBool b) = (if b then ''True'' else ''False'')"
| "py_repr (JInt i) = str_of_int i"
| "py_repr (JFloat x) = float_repr x"
| "py_repr (JString s) = repr_string s"
| "py_repr (JArray xs) = ''['' @ join '', '' (map py_repr xs) @ '']''"
| "py_repr (JObject d) =
     ''{'' @ join '', '' (map (\<lambda>kv. repr_string (fst kv) @ '': '' @ py_repr (snd kv)) d) @ ''}''"

text \<open>What an f-string writes for a value: \<^verbatim>\<open>format(v, '')\<close>, which is \<^verbatim>\<open>str(v)\<close>.\<close>

definition py_str :: "json \<Rightarrow> string" where
  "py_str v = (case v of JString s \<Rightarrow> s | _ \<Rightarrow> py_repr v)"

text \<open>
  \<^verbatim>\<open>float(s)\<close> of a string: white space around it is dropped, an underscore may stand
  between two digits, and the rest is a signed decimal literal or one of \<open>inf\<close>,
  \<open>infinity\<close>, \<open>nan\<close> in any letter case.
\<close>

definition is_float_space :: "char \<Rightarrow> bool" where
  "is_float_space c =
     (let n = (of_char c :: nat) in (9 \<le> n \<and> n \<le> 13) \<or> n = 32 \<or> n = 133 \<or> n = 160)"

fun underscores_ok :: "char \<Rightarrow> string \<Rightarrow> bool" where
  "underscores_ok prev [] = (prev \<noteq> CHR ''_'')"
| "underscores_ok prev (c # cs) =
     ((if c = CHR ''_'' then is_digit prev else (prev = CHR ''_'' \<longrightarrow> is_digit c))
      \<and> underscores_ok c cs)"

definition float_of_literal :: "bool \<Rightarrow> string \<Rightarrow> error + pyfloat" where
  "float_of_literal neg r =
     (let ip = takeWhile is_digit r;
          r1 = dropWhile is_digit r;
          (fp, r2) = (case r1 of
                        c # t \<Rightarrow> if c = CHR ''.'' then (takeWhile is_digit t, dropWhile is_digit t)
                                 else ([], r1)
                      | [] \<Rightarrow> ([], r1));
          (ex, r3) = lex_exponent r2
      in if (ip = [] \<and> fp = []) \<or> r3 \<noteq> [] then Inl ValueError
         else Inr (to_float neg (decimal_value ip fp (case ex of None \<Rightarrow> 0 | Some e \<Rightarrow> e))))"

definition float_of_string :: "string \<Rightarrow> error + pyfloat" where
  "float_of_string s =
     (let t = rev (dropWhile is_float_space (rev (dropWhile is_float_space s)))
      in if \<not> underscores_ok (CHR 0x00) t then Inl ValueError
         else
           (let u = filter (\<lambda>c. c \<noteq> CHR ''_'') t;
                (neg, r) = (case u of
                              c # cs \<Rightarrow> if c = CHR ''-'' then (True, cs)
                                        else if c = CHR ''+'' then (False, cs)
                                        else (False, u)
                            | [] \<Rightarrow> (False, u));
                l = py_lower r
            in if l = ''inf'' \<or> l = ''infinity'' then Inr (Infinite neg)
               else if l = ''nan'' then Inr NaN
               else float_of_literal neg r))"

text \<open>\<^verbatim>\<open>float(v)\<close> of a JSON value.\<close>

definition py_float :: "json \<Rightarrow> error + pyfloat" where
  "py_float v =
     (case v of
        JInt n \<Rightarrow>
          (case to_float (n < 0) (of_int \<bar>n\<bar>) of
             Infinite neg \<Rightarrow> Inl OverflowError
           | x \<Rightarrow> Inr x)
      | JBool b \<Rightarrow> Inr (Finite False (if b then 1 else 0))
      | JFloat x \<Rightarrow> Inr x
      | JString s \<Rightarrow> float_of_string s
      | _ \<Rightarrow> Inl TypeError)"

subsection \<open>Float arithmetic\<close>

definition signed :: "bool \<Rightarrow> rat \<Rightarrow> rat" where
  "signed neg q = (if neg then - q else q)"

text \<open>\<open>x + y\<close> on floats.\<close>

fun float_add :: "pyfloat \<Rightarrow> pyfloat \<Rightarrow> pyfloat" where
  "float_add NaN y = NaN"
| "float_add x NaN = NaN"
| "float_add (Infinite a) (Infinite b) = (if a = b then Infinite a else NaN)"
| "float_add (Infinite a) (Finite b q) = Infinite a"
| "float_add (Finite a p) (Infinite b) = Infinite b"
| "float_add (Finite a p) (Finite b q) =
     (let r = signed a p + signed b q
      in if r = 0 then Finite (a \<and> b) 0 else to_float (r < 0) \<bar>r\<bar>)"

text \<open>\<^verbatim>\<open>sum(xs)\<close>: the additions from the left, starting from the integer \<open>0\<close>. (From
  version 3.12 on the interpreter also carries a correction term for the rounding of the
  partial sums; the result is the same whenever the partial sums are exact.)\<close>

definition py_sum :: "pyfloat list \<Rightarrow> pyfloat" where
  "py_sum xs = foldl float_add (Finite False 0) xs"

text \<open>\<open>x / n\<close> of a float by a positive integer.\<close>

definition float_div_int :: "pyfloat \<Rightarrow> int \<Rightarrow> pyfloat" where
  "float_div_int x n =
     (case x of
        Finite neg q \<Rightarrow> to_float neg (q / of_int n)
      | _ \<Rightarrow> x)"

section \<open>Fetch stage\<close>

text \<open>
  \<^verbatim>\<open>re.search(r'title\s*=\s*"([^"]+)"', html_content)\<close>: the leftmost position where the
  word \<open>title\<close>, optional white space, an equals sign, optional white space and a
  non-empty quoted text follow each other; the result is the quoted text.
\<close>

definition match_title_attr :: "string \<Rightarrow> string option" where
  "match_title_attr s =
     (if startswith s ''title'' then
        (case dropWhile is_space (drop 5 s) of
           c # r2 \<Rightarrow>
             if c = CHR ''='' then
               (case dropWhile is_space r2 of
                  q # r4 \<Rightarrow>
                    if q = CHR 0x22 then
                      (let g = takeWhile (\<lambda>x. x \<noteq> CHR 0x22) r4;
                           r5 = dropWhile (\<lambda>x. x \<noteq> CHR 0x22) r4
                       in if g \<noteq> [] \<and> r5 \<noteq> [] then Some g else None)
                    else None
                | [] \<Rightarrow> None)
             else None
         | [] \<Rightarrow> None)
      else None)"

fun search_title_attr :: "string \<Rightarrow> string option" where
  "search_title_attr [] = None"
| "search_title_attr (c # cs) =
     (case match_title_attr (c # cs) of
        Some g \<Rightarrow> Some g
      | None \<Rightarrow> search_title_attr cs)"

text \<open>The body of the loop over the features: one feature becomes one article record.\<close>

definition process_feature :: "json \<Rightarrow> error + json" where
  "process_feature feature =
     ebind (py_get feature ''properties'' (JObject [])) (\<lambda>properties.
     ebind (py_get feature ''geometry'' (JObject [])) (\<lambda>geometry.
     ebind (py_get properties ''html'' (JString [])) (\<lambda>html_content.
     ebind (py_get properties ''title'' JNull) (\<lambda>title_value.
     ebind (if \<not> truthy title_value then
              (case html_content of
                 JString h \<Rightarrow>
                   (case search_title_attr h of
                      Some g \<Rightarrow> Inr (JString g)
                    | None \<Rightarrow> py_get properties ''name'' (JString ''N/A''))
               | _ \<Rightarrow> Inl TypeError)
            else Inr title_value) (\<lambda>title_value.
     ebind (py_get properties ''name'' (JString ''N/A'')) (\<lambda>name.
     ebind (py_get properties ''count'' (JString ''N/A'')) (\<lambda>count.
     ebind (py_get properties ''shareimage'' (JString ''N/A'')) (\<lambda>shareimage.
       Inr (JObject
         [(''title'', title_value),
          (''name'', name),
          (''count'', count),
          (''shareimage'', shareimage),
          (''html'', html_content),
          (''geometry'', geometry)])))))))))"

fun process_features :: "json list \<Rightarrow> json list \<Rightarrow> error + json list" where
  "process_features processed_articles [] = Inr processed_articles"
| "process_features processed_articles (feature # rest) =
     ebind (process_feature feature) (\<lambda>processed.
       process_features (processed_articles @ [processed]) rest)"

text \<open>\<^verbatim>\<open>features[:10]\<close> and the iteration over it, for whatever value \<open>features\<close> is: a
  list is cut to its first ten elements; the elements of a string are strings, which
  have no \<^verbatim>\<open>get\<close>; nothing else that is truthy can be sliced.\<close>

definition first_ten :: "json \<Rightarrow> error + json list" where
  "first_ten features =
     (case features of
        JArray fs \<Rightarrow> Inr (take 10 fs)
      | JString s \<Rightarrow> Inr (map (\<lambda>c. JString [c]) (take 10 s))
      | _ \<Rightarrow> Inl TypeError)"

definition process_response_data :: "json \<Rightarrow> error + json list" where
  "process_response_data data =
     ebind (py_get data ''features'' (JArray [])) (\<lambda>features.
       if \<not> truthy features then Inr []
       else ebind (first_ten features) (process_features []))"

text \<open>
  The news source is a collaborator: \<open>http\<close> answers the request built from the query
  parameters. \<open>RequestFailed\<close> is \<^verbatim>\<open>requests.get\<close> raising; a response carries
  \<^verbatim>\<open>response.ok\<close>, the status code and what \<^verbatim>\<open>response.json()\<close> gives (or raises).
  Every exception inside the function is caught and turns the result into the empty list.
  The log records of this stage are left out.
\<close>

datatype http_response = RequestFailed | Response bool int "error + json"

definition default_params :: "(string \<times> json) list" where
  "default_params =
     [(''query'', JString ''landslide''),
      (''mode'', JString ''PointData''),
      (''timespan'', JString ''1d''),
      (''format'', JString ''geojson''),
      (''maxrecords'', JInt 10)]"

text \<open>\<^verbatim>\<open>default_params.update(custom_params)\<close>, done when \<open>custom_params\<close> is a non-empty
  dict.\<close>

definition request_params :: "(string \<times> json) list option \<Rightarrow> (string \<times> json) list" where
  "request_params custom_params =
     (case custom_params of
        None \<Rightarrow> default_params
      | Some custom \<Rightarrow> fold (\<lambda>(k, v). dict_set k v) custom default_params)"

definition fetch_gdelt_articles ::
  "((string \<times> json) list \<Rightarrow> http_response) \<Rightarrow> (string \<times> json) list option \<Rightarrow> json list" where
  "fetch_gdelt_articles http custom_params =
     (case http (request_params custom_params) of
        RequestFailed \<Rightarrow> []
      | Response ok status_code body \<Rightarrow>
          if ok then
            (case ebind body process_response_data of
               Inl e \<Rightarrow> []
             | Inr processed_articles \<Rightarrow> processed_articles)
          else [])"

subsection \<open>At most ten records\<close>

lemma process_features_length:
  "process_features acc fs = Inr out \<Longrightarrow> length out = length acc + length fs"
  by (induction fs arbitrary: acc) (auto simp: ebind_def split: sum.splits)

lemma process_features_map:
  "list_all (\<lambda>f. \<not> isl (process_feature f)) fs \<Longrightarrow>
   process_features acc fs = Inr (acc @ map (\<lambda>f. projr (process_feature f)) fs)"
  by (induction fs arbitrary: acc) (auto simp: ebind_def split: sum.splits)

lemma first_ten_length: "first_ten x = Inr fs \<Longrightarrow> length fs \<le> 10"
  by (auto simp: first_ten_def split: json.splits)

lemma process_response_data_length:
  "process_response_data data = Inr out \<Longrightarrow> length out \<le> 10"
  by (auto simp: process_response_data_def ebind_def split: sum.splits if_splits
      dest!: first_ten_length process_features_length)

lemma process_response_data_features:
  assumes "map_of d ''features'' = Some (JArray fs)"
  shows "process_response_data (JObject d) = process_features [] (take 10 fs)"
proof (cases fs)
  case Nil
  with assms show ?thesis
    by (simp add: process_response_data_def py_get_def dict_get_def ebind_def)
next
  case (Cons f fs')
  with assms show ?thesis
    by (simp add: process_response_data_def py_get_def dict_get_def ebind_def first_ten_def)
qed

text \<open>
  Claim C10: whatever the query configuration (the record cap \<open>maxrecords\<close> included) and
  whatever the news source answers, the fetch stage returns at most 10 records. On a
  successful response whose \<open>features\<close> is a list, the result is computed from the first
  ten features alone; when each of them can be processed, it is their article records, in
  order.
\<close>

theorem fetch_gdelt_articles_first_ten:
  "length (fetch_gdelt_articles http custom_params) \<le> 10 \<and>
   (http (request_params custom_params) = Response True status_code (Inr (JObject d)) \<longrightarrow>
    map_of d ''features'' = Some (JArray fs) \<longrightarrow>
      fetch_gdelt_articles http custom_params =
        (case process_features [] (take 10 fs) of Inl e \<Rightarrow> [] | Inr ps \<Rightarrow> ps)
      \<and> (list_all (\<lambda>f. \<not> isl (process_feature f)) (take 10 fs) \<longrightarrow>
           fetch_gdelt_articles http custom_params =
             map (\<lambda>f. projr (process_feature f)) (take 10 fs)))"
proof -
  have bound: "length (fetch_gdelt_articles http custom_params) \<le> 10"
    by (auto simp: fetch_gdelt_articles_def ebind_def split: http_response.splits sum.splits
        dest: process_response_data_length)
  have first: "fetch_gdelt_articles http custom_params =
        (case process_features [] (take 10 fs) of Inl e \<Rightarrow> [] | Inr ps \<Rightarrow> ps)"
    if "http (request_params custom_params) = Response True status_code (Inr (JObject d))"
      and "map_of d ''features'' = Some (JArray fs)"
    using that process_response_data_features[of d fs]
    by (simp add: fetch_gdelt_articles_def ebind_def)
  have records: "fetch_gdelt_articles http custom_params =
        map (\<lambda>f. projr (process_feature f)) (take 10 fs)"
    if "http (request_params custom_params) = Response True status_code (Inr (JObject d))"
      and "map_of d ''features'' = Some (JArray fs)"
      and "list_all (\<lambda>f. \<not> isl (process_feature f)) (take 10 fs)"
    using first[OF that(1,2)] process_features_map[OF that(3), of "[]"] by simp
  from bound first records show ?thesis by blast
qed

theorem fetch_gdelt_articles_first_ten_witness:
  "fetch_gdelt_articles
     (\<lambda>params. Response True 200 (Inr (JObject [(''features'', JArray
        (map (\<lambda>n. JObject [(''properties'', JObject [(''name'', JString n)])])
           [''a'', ''b'', ''c'', ''d'', ''e'', ''f'', ''g'', ''h'', ''i'', ''j'', ''k'', ''l'']))])))
     (Some [(''maxrecords'', JInt 250)])
   = map (\<lambda>f. projr (process_feature f))
       (map (\<lambda>n. JObject [(''properties'', JObject [(''name'', JString n)])])
          [''a'', ''b'', ''c'', ''d'', ''e'', ''f'', ''g'', ''h'', ''i'', ''j''])
   \<and> length (fetch_gdelt_articles
     (\<lambda>params. Response True 200 (Inr (JObject [(''features'', JArray
        (map (\<lambda>n. JObject [(''properties'', JObject [(''name'', JString n)])])
           [''a'', ''b'', ''c'', ''d'', ''e'', ''f'', ''g'', ''h'', ''i'', ''j'', ''k'', ''l'']))])))
     (Some [(''maxrecords'', JInt 250)])) = 10"
proof -
  define names10 where "names10 = [''a'', ''b'', ''c'', ''d'', ''e'', ''f'', ''g'', ''h'', ''i'', ''j'']"
  define mk where "mk = (\<lambda>n. JObject [(''properties'', JObject [(''name'', JString n)])])"
  define fs where "fs = map mk (names10 @ [''k'', ''l''])"
  define d where "d = [(''features'', JArray fs)]"
  define http where
    "http = (\<lambda>params :: (string \<times> json) list. Response True 200 (Inr (JObject d)))"
  define custom where "custom = Some [(''maxrecords'', JInt 250)]"
  have h1: "http (request_params custom) = Response True 200 (Inr (JObject d))"
    by (simp add: http_def)
  have h2: "map_of d ''features'' = Some (JArray fs)"
    by (simp add: d_def)
  have t: "take 10 fs = map mk names10"
    by (simp add: fs_def names10_def)
  have "list_all (\<lambda>f. \<not> isl (process_feature f))
      (map (\<lambda>n. JObject [(''properties'', JObject [(''name'', JString n)])])
         [''a'', ''b'', ''c'', ''d'', ''e'', ''f'', ''g'', ''h'', ''i'', ''j''])"
    by code_simp
  then have ok: "list_all (\<lambda>f. \<not> isl (process_feature f)) (take 10 fs)"
    by (simp add: t mk_def names10_def)
  from fetch_gdelt_articles_first_ten[of http custom 200 d fs] h1 h2 ok
  have r: "fetch_gdelt_articles http custom = map (\<lambda>f. projr (process_feature f)) (take 10 fs)"
    by blast
  then have "length (fetch_gdelt_articles http custom) = 10"
    by (simp add: t names10_def)
  with r show ?thesis
    unfolding t unfolding http_def d_def fs_def custom_def mk_def names10_def by simp
qed

section \<open>The file store and the collaborators\<close>

text \<open>
  A stage reads and writes files and talks to its collaborators. The state of a run is
  the file store (a path has a content or does not exist; directories are implicit) and
  the trace of what the run did, oldest event first. Log records are events of the trace,
  not files of the store; what is printed on the console is left out. A write fails only
  where the code itself makes it fail; faults of the environment (a full disk, a missing
  permission) are outside the model.
\<close>

text \<open>What a language-model call gives back: a plain string, a keyed object (the chain's
  usual answer, with the text under \<open>text\<close>), some other object (given by its \<^verbatim>\<open>str\<close>),
  or an exception.\<close>

datatype response = RespStr string | RespDict "(string \<times> json) list" | RespOther string | RespError

datatype event =
    FileRead string
  | FileWrite string
  | EvaluatorCall string string response
  | RewriterCall string string response
  | LogInfo string
  | LogError string
  | Print string

record world =
  files :: "string \<Rightarrow> string option"
  trace :: "event list"

definition emit :: "event \<Rightarrow> world \<Rightarrow> world" where
  "emit e w = w\<lparr>trace := trace w @ [e]\<rparr>"

text \<open>
  The collaborators of the scoring and rewriting stages. The language model behind
  \<^verbatim>\<open>chain.ainvoke\<close> and \<^verbatim>\<open>chain.run\<close> is not a function of its input: its answer may depend on
  everything that happened before, so it is asked with the trace so far. \<open>json5_loads\<close>
  is the optional lenient parser (\<open>None\<close> when the module is not installed). Directories
  are implicit in the file store; \<open>listdir\<close> tells which names a directory holds (\<open>None\<close>
  for a path that is not a directory).
\<close>

record env =
  evaluator :: "event list \<Rightarrow> string \<Rightarrow> string \<Rightarrow> response"
  rewriter :: "event list \<Rightarrow> string \<Rightarrow> string \<Rightarrow> response"
  json5_loads :: "(string \<Rightarrow> error + json) option"
  listdir :: "string \<Rightarrow> string list option"

section \<open>Scoring orchestrator\<close>

definition load_articles :: "env \<Rightarrow> string \<Rightarrow> world \<Rightarrow> (error + json) \<times> world" where
  "load_articles env filename w =
     (case files w filename of
        None \<Rightarrow> (Inl FileNotFoundError, w)
      | Some file_content \<Rightarrow>
          (let w' = emit (FileRead filename) w
           in case json_loads file_content of
                Inr articles \<Rightarrow> (Inr articles, w')
              | Inl e \<Rightarrow>
                  (case json5_loads env of
                     Some loads \<Rightarrow> (loads file_content, w')
                   | None \<Rightarrow> (Inl e, w'))))"

definition state_representation :: "json \<Rightarrow> error + string" where
  "state_representation article =
     ebind (py_get article ''title'' (JString ''N/A'')) (\<lambda>title.
     ebind (py_get article ''name'' (JString ''N/A'')) (\<lambda>name.
     ebind (py_get article ''count'' (JString ''N/A'')) (\<lambda>count.
     ebind (py_get article ''html'' (JString [])) (\<lambda>html.
       Inr (''Title: '' @ py_str title @ [CHR 0x0A]
            @ ''Name: '' @ py_str name @ [CHR 0x0A]
            @ ''Count: '' @ py_str count @ [CHR 0x0A]
            @ ''HTML: '' @ py_str html)))))"

definition prompt_path :: string where
  "prompt_path = ''config/agent_prompt.txt''"

text \<open>The built-in instructions, after \<^verbatim>\<open>dedent\<close>.\<close>

definition default_prompt :: string where
  "default_prompt =
     concat (map (\<lambda>line. line @ [CHR 0x0A])
       [[],
        ''You are a news evaluation agent using the state-of-the-art Gemini model. Your task is to analyze the following article details and assess its tweet-worthiness. Consider aspects such as relevance, timeliness, clarity, and public interest.'',
        [],
        ''Article details:'',
        ''{state}'',
        [],
        ''Provide your evaluation as a JSON object with the following keys:'',
        ''    '' @ [CHR 0x22] @ ''tweet_worthiness'' @ [CHR 0x22] @ '': an integer score between 0 (not tweet-worthy) and 10 (highly tweet-worthy).'',
        ''    '' @ [CHR 0x22] @ ''summary'' @ [CHR 0x22] @ '': a brief (1-2 sentence) summary explaining your evaluation.'',
        [],
        ''Example output:'',
        ''{{'' @ [CHR 0x22] @ ''tweet_worthiness'' @ [CHR 0x22] @ '': 8, '' @ [CHR 0x22] @ ''summary'' @ [CHR 0x22] @ '': '' @ [CHR 0x22] @ ''The article provides timely insights with significant public interest.'' @ [CHR 0x22] @ ''}}'',
        [],
        ''Now, please provide your JSON evaluation.''])"

text \<open>\<^verbatim>\<open>get_agent_prompt\<close>: the instruction file when it exists, the built-in text otherwise.\<close>

definition get_agent_prompt :: "world \<Rightarrow> string \<times> world" where
  "get_agent_prompt w =
     (case files w prompt_path of
        Some text \<Rightarrow> (text, emit (FileRead prompt_path) w)
      | None \<Rightarrow> (default_prompt, w))"

text \<open>\<^verbatim>\<open>get_agent_action\<close>: reads the instructions, then asks the evaluator.\<close>

definition get_agent_action :: "env \<Rightarrow> string \<Rightarrow> world \<Rightarrow> (error + response) \<times> world" where
  "get_agent_action env state_text w =
     (let (prompt_template, w1) = get_agent_prompt w;
          result = evaluator env (trace w1) prompt_template state_text;
          w2 = emit (EvaluatorCall prompt_template state_text result) w1
      in case result of
           RespError \<Rightarrow> (Inl CollaboratorError, w2)
         | _ \<Rightarrow> (Inr result, w2))"

subsection \<open>Response recovery\<close>

text \<open>\<^verbatim>\<open>re.search(r'(\{.*\})', s, re.DOTALL)\<close>: from the first opening brace to the last
  closing brace after it.\<close>

definition brace_search :: "string \<Rightarrow> string option" where
  "brace_search s =
     (case dropWhile (\<lambda>c. c \<noteq> CHR ''{'') s of
        [] \<Rightarrow> None
      | b # t \<Rightarrow>
          (case dropWhile (\<lambda>c. c \<noteq> CHR ''}'') (rev t) of
             [] \<Rightarrow> None
           | r # rs \<Rightarrow> Some (b # rev (r # rs))))"

text \<open>The answer as a string; the \<open>text\<close> entry of a keyed answer must itself be a string,
  for \<^verbatim>\<open>strip\<close> to exist.\<close>

definition response_string :: "response \<Rightarrow> error + string" where
  "response_string response_text =
     (case response_text of
        RespStr s \<Rightarrow> Inr s
      | RespDict d \<Rightarrow>
          (case dict_get d ''text'' (JString []) of
             JString s \<Rightarrow> Inr s
           | _ \<Rightarrow> Inl AttributeError)
      | RespOther s \<Rightarrow> Inr s
      | RespError \<Rightarrow> Inl CollaboratorError)"

text \<open>The body of the \<^verbatim>\<open>try\<close> block: trim, remove the code fence, cut out the braces,
  decode.\<close>

definition parse_action :: "response \<Rightarrow> error + json" where
  "parse_action response_text =
     ebind (response_string response_text) (\<lambda>response_str.
       (let response_str = py_strip response_str;
            response_str = (if startswith response_str ''```''
                            then py_strip (py_strip_chars ''`'' response_str)
                            else response_str);
            json_str = (case brace_search response_str of
                          Some m \<Rightarrow> m
                        | None \<Rightarrow> response_str)
        in json_loads json_str))"

definition fallback_action :: json where
  "fallback_action =
     JObject [(''tweet_worthiness'', JInt 0), (''summary'', JString ''Could not evaluate article.'')]"

text \<open>The value of \<open>action\<close> after the \<^verbatim>\<open>try\<close> statement.\<close>

definition action_of :: "response \<Rightarrow> json" where
  "action_of response_text =
     (case parse_action response_text of Inl e \<Rightarrow> fallback_action | Inr action \<Rightarrow> action)"

text \<open>\<^verbatim>\<open>article[k] = v\<close>.\<close>

definition set_item :: "json \<Rightarrow> string \<Rightarrow> json \<Rightarrow> error + json" where
  "set_item x k v = (case x of JObject d \<Rightarrow> Inr (JObject (dict_set k v d)) | _ \<Rightarrow> Inl TypeError)"

text \<open>The two assignments after the \<^verbatim>\<open>try\<close> statement. They stand outside it: an action
  that is not a dict has no \<^verbatim>\<open>get\<close>, and the exception leaves the loop.\<close>

definition inject :: "json \<Rightarrow> json \<Rightarrow> error + json" where
  "inject article action =
     ebind (py_get action ''tweet_worthiness'' (JInt 0)) (\<lambda>tweet_worthiness.
     ebind (set_item article ''tweet_worthiness'' tweet_worthiness) (\<lambda>article.
     ebind (py_get action ''summary'' (JString ''No summary provided'')) (\<lambda>summary.
       set_item article ''summary'' summary)))"

subsection \<open>The loop and the run\<close>

fun score_articles ::
  "env \<Rightarrow> nat \<Rightarrow> json list \<Rightarrow> json list \<Rightarrow> world \<Rightarrow> (error + json list) \<times> world" where
  "score_articles env idx scored_articles [] w = (Inr scored_articles, w)"
| "score_articles env idx scored_articles (article # rest) w =
     (case state_representation article of
        Inl e \<Rightarrow> (Inl e, w)
      | Inr state_text \<Rightarrow>
          (case get_agent_action env state_text w of
             (Inl e, w1) \<Rightarrow> (Inl e, w1)
           | (Inr response_text, w1) \<Rightarrow>
               (let w2 = (case parse_action response_text of
                            Inl e \<Rightarrow> emit (LogError (''Failed to parse response for article ''
                                                     @ str_of_int (int idx))) w1
                          | Inr action \<Rightarrow> w1)
                in case inject article (action_of response_text) of
                     Inl e \<Rightarrow> (Inl e, w2)
                   | Inr article' \<Rightarrow>
                       score_articles env (Suc idx) (scored_articles @ [article']) rest w2)))"

text \<open>What a \<^verbatim>\<open>for\<close> loop iterates over: the elements of a list, the keys of a dict, the
  characters of a string; nothing else is iterable.\<close>

definition iterate :: "json \<Rightarrow> error + json list" where
  "iterate x =
     (case x of
        JArray xs \<Rightarrow> Inr xs
      | JObject d \<Rightarrow> Inr (map (\<lambda>kv. JString (fst kv)) d)
      | JString s \<Rightarrow> Inr (map (\<lambda>c. JString [c]) s)
      | _ \<Rightarrow> Inl TypeError)"

text \<open>\<^verbatim>\<open>os.path.dirname\<close>.\<close>

definition dirname :: "string \<Rightarrow> string" where
  "dirname p =
     (let head = rev (dropWhile (\<lambda>c. c \<noteq> CHR ''/'') (rev p))
      in if head \<noteq> [] \<and> \<not> list_all (\<lambda>c. c = CHR ''/'') head
         then rev (dropWhile (\<lambda>c. c = CHR ''/'') (rev head))
         else head)"

text \<open>The final \<^verbatim>\<open>try\<close> statement: \<^verbatim>\<open>os.makedirs\<close> raises on an empty directory name, and
  then nothing is written.\<close>

definition save_scored :: "string \<Rightarrow> json list \<Rightarrow> world \<Rightarrow> world" where
  "save_scored output_file scored_articles w =
     (if dirname output_file = [] then emit (LogError ''Failed to save scored articles'') w
      else emit (LogInfo (''Generated scored articles saved to '' @ output_file))
             (emit (FileWrite output_file)
                (w\<lparr>files := (files w)(output_file \<mapsto> json_dump (JArray scored_articles))\<rparr>)))"

definition raw_path :: "string \<Rightarrow> string option \<Rightarrow> string" where
  "raw_path today_str input_file =
     (case input_file of
        None \<Rightarrow> ''data/raw/gdelt_articles_'' @ today_str @ ''.json''
      | Some f \<Rightarrow> f)"

definition scored_path :: "string \<Rightarrow> string option \<Rightarrow> string" where
  "scored_path today_str output_file =
     (case output_file of
        None \<Rightarrow> ''data/scored/generated_scored_articles_'' @ today_str @ ''.json''
      | Some f \<Rightarrow> f)"

definition run_simulation ::
  "env \<Rightarrow> string \<Rightarrow> string option \<Rightarrow> string option \<Rightarrow> world \<Rightarrow> (error + unit) \<times> world" where
  "run_simulation env today_str input_file output_file w =
     (let input_file = raw_path today_str input_file;
          output_file = scored_path today_str output_file
      in if files w output_file \<noteq> None
         then (Inr (), emit (LogInfo (''Output file '' @ output_file
                                      @ '' already exists. Skipping simulation.'')) w)
         else
           (case load_articles env input_file w of
              (Inl e, w1) \<Rightarrow> (Inl e, w1)
            | (Inr articles, w1) \<Rightarrow>
                if \<not> truthy articles
                then (Inr (), emit (LogError ''No articles to process. Exiting simulation.'') w1)
                else
                  (case iterate articles of
                     Inl e \<Rightarrow> (Inl e, w1)
                   | Inr items \<Rightarrow>
                       (case score_articles env 0 [] items w1 of
                          (Inl e, w2) \<Rightarrow> (Inl e, w2)
                        | (Inr scored_articles, w2) \<Rightarrow>
                            (Inr (), save_scored output_file scored_articles w2)))))"

subsection \<open>What a run leaves in the trace\<close>

fun responses :: "event list \<Rightarrow> response list" where
  "responses [] = []"
| "responses (EvaluatorCall t s r # evs) = r # responses evs"
| "responses (e # evs) = responses evs"

fun writes :: "event list \<Rightarrow> string list" where
  "writes [] = []"
| "writes (FileWrite p # evs) = p # writes evs"
| "writes (e # evs) = writes evs"

text \<open>The events a run added to the trace.\<close>

definition new_events :: "world \<Rightarrow> world \<Rightarrow> event list" where
  "new_events w w' = drop (length (trace w)) (trace w')"

fun is_object :: "json \<Rightarrow> bool" where
  "is_object (JObject d) = True"
| "is_object _ = False"

definition field :: "string \<Rightarrow> json \<Rightarrow> json option" where
  "field k x = (case x of JObject d \<Rightarrow> map_of d k | _ \<Rightarrow> None)"

lemma responses_append [simp]: "responses (xs @ ys) = responses xs @ responses ys"
  by (induction xs rule: responses.induct) auto

lemma writes_append [simp]: "writes (xs @ ys) = writes xs @ writes ys"
  by (induction xs rule: writes.induct) auto

lemma map_of_dict_set: "map_of (dict_set k v d) = (map_of d)(k \<mapsto> v)"
  by (induction d) (auto simp: fun_eq_iff)

lemma inject_object:
  "inject (JObject d) (JObject a) =
     Inr (JObject (dict_set ''summary'' (dict_get a ''summary'' (JString ''No summary provided''))
            (dict_set ''tweet_worthiness'' (dict_get a ''tweet_worthiness'' (JInt 0)) d)))"
  by (simp add: inject_def py_get_def set_item_def ebind_def)

lemma inject_Inr:
  assumes "inject article action = Inr article'"
  shows "\<exists>d a. article = JObject d \<and> action = JObject a \<and>
           article' = JObject (dict_set ''summary'' (dict_get a ''summary'' (JString ''No summary provided''))
             (dict_set ''tweet_worthiness'' (dict_get a ''tweet_worthiness'' (JInt 0)) d))"
proof -
  from assms obtain a where a: "action = JObject a"
    by (cases action) (auto simp: inject_def py_get_def ebind_def)
  from assms a obtain d where d: "article = JObject d"
    by (cases article) (auto simp: inject_def py_get_def set_item_def ebind_def)
  from assms a d show ?thesis by (simp add: inject_object)
qed


lemma get_agent_action_effect:
  assumes "get_agent_action env state_text w = (res, w1)"
  shows "files w1 = files w \<and>
         (\<exists>t r. trace w1 = trace w
                   @ (if files w prompt_path = None then [] else [FileRead prompt_path])
                   @ [EvaluatorCall t state_text r]
                 \<and> r = evaluator env (trace w
                          @ (if files w prompt_path = None then [] else [FileRead prompt_path]))
                        t state_text
                 \<and> res = (if r = RespError then Inl CollaboratorError else Inr r))"
proof -
  obtain t w0 where p: "get_agent_prompt w = (t, w0)"
    by fastforce
  then have w0: "files w0 = files w"
    "trace w0 = trace w @ (if files w prompt_path = None then [] else [FileRead prompt_path])"
    by (auto simp: get_agent_prompt_def emit_def split: option.splits)
  define r where "r = evaluator env (trace w0) t state_text"
  from assms p have "w1 = emit (EvaluatorCall t state_text r) w0"
    and "res = (if r = RespError then Inl CollaboratorError else Inr r)"
    by (auto simp: get_agent_action_def Let_def r_def split: response.splits)
  with w0 have "files w1 = files w \<and>
      trace w1 = trace w @ (if files w prompt_path = None then [] else [FileRead prompt_path])
                   @ [EvaluatorCall t state_text r] \<and>
      r = evaluator env (trace w
             @ (if files w prompt_path = None then [] else [FileRead prompt_path])) t state_text \<and>
      res = (if r = RespError then Inl CollaboratorError else Inr r)"
    by (simp add: emit_def r_def)
  then show ?thesis by blast
qed

text \<open>One pass of the loop body, whatever its outcome.\<close>

lemma score_articles_events:
  assumes "score_articles env idx acc items w = (res, w')"
  shows "files w' = files w \<and>
         (\<exists>evs. trace w' = trace w @ evs \<and> writes evs = [] \<and>
            count_list evs (FileRead prompt_path) =
              (if files w prompt_path = None then 0 else length (responses evs)) \<and>
            (\<forall>scored. res = Inr scored \<longrightarrow>
               length (responses evs) = length items \<and>
               list_all2 (\<lambda>a r. \<not> isl (inject a (action_of r))) items (responses evs) \<and>
               scored = acc @ map2 (\<lambda>a r. projr (inject a (action_of r))) items (responses evs)))"
  using assms
proof (induction items arbitrary: idx acc w)
  case Nil
  then show ?case by auto
next
  case (Cons article rest)
  show ?case
  proof (cases "state_representation article")
    case (Inl e)
    with Cons.prems show ?thesis by auto
  next
    case (Inr state_text)
    obtain r1 w1 where g: "get_agent_action env state_text w = (r1, w1)"
      by fastforce
    from get_agent_action_effect[OF g] obtain t r where
      f1: "files w1 = files w"
      and t1: "trace w1 = trace w
                 @ (if files w prompt_path = None then [] else [FileRead prompt_path])
                 @ [EvaluatorCall t state_text r]"
      and r1: "r1 = (if r = RespError then Inl CollaboratorError else Inr r)"
      by blast
    show ?thesis
    proof (cases "r = RespError")
      case True
      with Cons.prems Inr g r1 f1 t1 show ?thesis
        by auto
    next
      case False
      define w2 where "w2 = (case parse_action r of
                            Inl e \<Rightarrow> emit (LogError (''Failed to parse response for article ''
                                                     @ str_of_int (int idx))) w1
                          | Inr action \<Rightarrow> w1)"
      have f2: "files w2 = files w"
        using f1 by (simp add: w2_def emit_def split: sum.splits)
      obtain lg where t2: "trace w2 = trace w1 @ lg" and lg: "writes lg = []"
        "responses lg = []" "count_list lg (FileRead prompt_path) = 0"
        by (cases "parse_action r") (auto simp: w2_def emit_def)
      show ?thesis
      proof (cases "inject article (action_of r)")
        case (Inl e)
        with Cons.prems Inr g r1 False f2 t1 t2 lg show ?thesis
          by (auto simp: w2_def[symmetric])
      next
        case inj: (Inr article')
        from Cons.prems Inr g r1 False inj
        have rec: "score_articles env (Suc idx) (acc @ [article']) rest w2 = (res, w')"
          by (simp add: w2_def[symmetric])
        from Cons.IH[OF rec] obtain evs where
          f3: "files w' = files w2"
          and t3: "trace w' = trace w2 @ evs"
          and w3: "writes evs = []"
          and c3: "count_list evs (FileRead prompt_path) =
                     (if files w2 prompt_path = None then 0 else length (responses evs))"
          and s3: "\<forall>scored. res = Inr scored \<longrightarrow>
               length (responses evs) = length rest \<and>
               list_all2 (\<lambda>a r. \<not> isl (inject a (action_of r))) rest (responses evs) \<and>
               scored = (acc @ [article']) @
                 map2 (\<lambda>a r. projr (inject a (action_of r))) rest (responses evs)"
          by blast
        let ?evs = "(if files w prompt_path = None then [] else [FileRead prompt_path])
                 @ [EvaluatorCall t state_text r] @ lg @ evs"
        have "trace w' = trace w @ ?evs"
          using t1 t2 t3 by simp
        moreover have "writes ?evs = []"
          using w3 lg by simp
        moreover have "responses ?evs = r # responses evs"
          using lg by simp
        moreover have "count_list ?evs (FileRead prompt_path) =
              (if files w prompt_path = None then 0 else Suc (length (responses evs)))"
          using c3 lg f2 by simp
        ultimately show ?thesis
          using f3 f2 s3 inj by (intro conjI exI[of _ ?evs]) auto
      qed
    qed
  qed
qed

lemma load_articles_effect:
  assumes "load_articles env filename w = (res, w1)"
  shows "files w1 = files w \<and>
         trace w1 = trace w @ (if files w filename = None then [] else [FileRead filename])"
  using assms
  by (auto simp: load_articles_def emit_def Let_def split: option.splits sum.splits)

lemma save_scored_effect:
  "trace (save_scored output_file scored w) =
     trace w @ (if dirname output_file = [] then [LogError ''Failed to save scored articles'']
                else [FileWrite output_file,
                      LogInfo (''Generated scored articles saved to '' @ output_file)])
   \<and> files (save_scored output_file scored w) =
     (if dirname output_file = [] then files w
      else (files w)(output_file \<mapsto> json_dump (JArray scored)))"
  by (simp add: save_scored_def emit_def)

text \<open>A run that is skipped changes nothing but the log.\<close>

lemma run_simulation_skip:
  assumes "files w (scored_path today_str output_file) \<noteq> None"
  shows "run_simulation env today_str input_file output_file w =
           (Inr (), emit (LogInfo (''Output file '' @ scored_path today_str output_file
                                   @ '' already exists. Skipping simulation.'')) w)"
  using assms by (simp add: run_simulation_def Let_def)

text \<open>A run that leaves a new scored file went through every step.\<close>

lemma run_simulation_written:
  assumes absent: "files w (scored_path today_str output_file) = None"
    and run: "run_simulation env today_str input_file output_file w = (res, w')"
    and written: "files w' (scored_path today_str output_file) = Some text"
  shows "\<exists>articles items scored w1 w2.
           load_articles env (raw_path today_str input_file) w = (Inr articles, w1) \<and>
           iterate articles = Inr items \<and> items \<noteq> [] \<and>
           score_articles env 0 [] items w1 = (Inr scored, w2) \<and>
           dirname (scored_path today_str output_file) \<noteq> [] \<and>
           w' = save_scored (scored_path today_str output_file) scored w2 \<and>
           text = json_dump (JArray scored) \<and> res = Inr ()"
proof -
  let ?out = "scored_path today_str output_file"
  have changed: "files w' \<noteq> files w"
    using absent written by auto
  obtain r1 w1 where l: "load_articles env (raw_path today_str input_file) w = (r1, w1)"
    by fastforce
  from load_articles_effect[OF l] have f1: "files w1 = files w" by simp
  show ?thesis
  proof (cases r1)
    case (Inl e)
    with absent run l have "w' = w1"
      by (simp add: run_simulation_def Let_def)
    with f1 changed show ?thesis by simp
  next
    case (Inr articles)
    show ?thesis
    proof (cases "truthy articles")
      case False
      with absent run l Inr
      have "w' = emit (LogError ''No articles to process. Exiting simulation.'') w1"
        by (simp add: run_simulation_def Let_def)
      with f1 changed show ?thesis by (simp add: emit_def)
    next
      case True
      show ?thesis
      proof (cases "iterate articles")
        case (Inl e)
        with absent run l Inr True have "w' = w1"
          by (simp add: run_simulation_def Let_def)
        with f1 changed show ?thesis by simp
      next
        case it: (Inr items)
        obtain r2 w2 where s: "score_articles env 0 [] items w1 = (r2, w2)"
          by fastforce
        from score_articles_events[OF s] have f2: "files w2 = files w1" by simp
        from True it have ne: "items \<noteq> []"
          by (cases articles) (auto simp: iterate_def)
        show ?thesis
        proof (cases r2)
          case (Inl e)
          with absent run l Inr True it s have "w' = w2"
            by (simp add: run_simulation_def Let_def)
          with f1 f2 changed show ?thesis by simp
        next
          case sc: (Inr scored)
          with absent run l Inr True it s
          have w': "w' = save_scored ?out scored w2" and res: "res = Inr ()"
            by (simp_all add: run_simulation_def Let_def)
          from w' changed f1 f2 save_scored_effect[of ?out scored w2]
          have d: "dirname ?out \<noteq> []"
            by (auto split: if_splits)
          with w' written save_scored_effect[of ?out scored w2]
          have "text = json_dump (JArray scored)"
            by simp
          with l Inr it ne s sc w' res d show ?thesis by simp
        qed
      qed
    qed
  qed
qed

text \<open>The batch a run has written, in terms of the raw records and of the answers the
  evaluator gave during the run.\<close>

lemma run_simulation_written_batch:
  assumes absent: "files w (scored_path today_str output_file) = None"
    and run: "run_simulation env today_str input_file output_file w = (res, w')"
    and written: "files w' (scored_path today_str output_file) = Some text"
  shows "\<exists>items scored.
           text = json_dump (JArray scored) \<and>
           length (responses (new_events w w')) = length items \<and>
           list_all2 (\<lambda>a r. \<not> isl (inject a (action_of r))) items (responses (new_events w w')) \<and>
           scored = map2 (\<lambda>a r. projr (inject a (action_of r))) items (responses (new_events w w'))"
proof -
  let ?out = "scored_path today_str output_file"
  from run_simulation_written[OF absent run written] obtain articles items scored w1 w2 where
    l: "load_articles env (raw_path today_str input_file) w = (Inr articles, w1)"
    and s: "score_articles env 0 [] items w1 = (Inr scored, w2)"
    and d: "dirname ?out \<noteq> []"
    and w': "w' = save_scored ?out scored w2"
    and tx: "text = json_dump (JArray scored)"
    by blast
  from load_articles_effect[OF l] obtain e1 where
    t1: "trace w1 = trace w @ e1" and r1: "responses e1 = []"
    by (cases "files w (raw_path today_str input_file) = None") auto
  from score_articles_events[OF s] obtain evs where
    t2: "trace w2 = trace w1 @ evs"
    and len: "length (responses evs) = length items"
    and ok: "list_all2 (\<lambda>a r. \<not> isl (inject a (action_of r))) items (responses evs)"
    and sc: "scored = map2 (\<lambda>a r. projr (inject a (action_of r))) items (responses evs)"
    by auto
  have "trace w' = trace w @ e1 @ evs @ [FileWrite ?out,
          LogInfo (''Generated scored articles saved to '' @ ?out)]"
    using w' d t1 t2 save_scored_effect[of ?out scored w2] by simp
  then have rs: "responses (new_events w w') = responses evs"
    using r1 by (simp add: new_events_def)
  from tx len ok sc rs show ?thesis by auto
qed

text \<open>Between two events of a run.\<close>

lemma run_simulation_events:
  assumes run: "run_simulation env today_str input_file output_file w = (res, w')"
  shows "\<exists>evs. trace w' = trace w @ evs \<and>
           (raw_path today_str input_file \<noteq> prompt_path \<longrightarrow>
              count_list evs (FileRead prompt_path) =
                (if files w prompt_path = None then 0 else length (responses evs)))"
proof (cases "files w (scored_path today_str output_file) = None")
  case False
  with run run_simulation_skip[of w today_str output_file env input_file]
  show ?thesis by (auto simp: emit_def)
next
  case absent: True
  let ?out = "scored_path today_str output_file"
  let ?in = "raw_path today_str input_file"
  obtain r1 w1 where l: "load_articles env ?in w = (r1, w1)"
    by fastforce
  from load_articles_effect[OF l] have f1: "files w1 = files w"
    and t1: "trace w1 = trace w @ (if files w ?in = None then [] else [FileRead ?in])"
    by simp_all
  let ?e1 = "if files w ?in = None then [] else [FileRead ?in]"
  have c1: "?in \<noteq> prompt_path \<Longrightarrow> count_list ?e1 (FileRead prompt_path) = 0"
    and p1: "responses ?e1 = []"
    by auto
  show ?thesis
  proof (cases r1)
    case (Inl e)
    with absent run l have "w' = w1"
      by (simp add: run_simulation_def Let_def)
    with t1 c1 p1 show ?thesis by (intro exI[of _ ?e1]) auto
  next
    case (Inr articles)
    show ?thesis
    proof (cases "truthy articles")
      case False
      with absent run l Inr
      have "w' = emit (LogError ''No articles to process. Exiting simulation.'') w1"
        by (simp add: run_simulation_def Let_def)
      with t1 c1 p1 show ?thesis
        by (intro exI[of _ "?e1 @ [LogError ''No articles to process. Exiting simulation.'']"])
           (auto simp: emit_def)
    next
      case True
      show ?thesis
      proof (cases "iterate articles")
        case (Inl e)
        with absent run l Inr True have "w' = w1"
          by (simp add: run_simulation_def Let_def)
        with t1 c1 p1 show ?thesis by (intro exI[of _ ?e1]) auto
      next
        case it: (Inr items)
        obtain r2 w2 where s: "score_articles env 0 [] items w1 = (r2, w2)"
          by fastforce
        from score_articles_events[OF s] obtain evs where
          t2: "trace w2 = trace w1 @ evs"
          and c2: "count_list evs (FileRead prompt_path) =
                     (if files w1 prompt_path = None then 0 else length (responses evs))"
          by blast
        show ?thesis
        proof (cases r2)
          case (Inl e)
          with absent run l Inr True it s have "w' = w2"
            by (simp add: run_simulation_def Let_def)
          with t1 t2 c1 c2 p1 f1 show ?thesis
            by (intro exI[of _ "?e1 @ evs"]) auto
        next
          case (Inr scored)
          with absent run l \<open>r1 = Inr articles\<close> True it s
          have "w' = save_scored ?out scored w2"
            by (simp add: run_simulation_def Let_def)
          then obtain sv where "trace w' = trace w2 @ sv"
            and "count_list sv (FileRead prompt_path) = 0" and "responses sv = []"
            using save_scored_effect[of ?out scored w2] by (cases "dirname ?out = []") auto
          with t1 t2 c1 c2 p1 f1 show ?thesis
            by (intro exI[of _ "?e1 @ evs @ sv"]) auto
        qed
      qed
    qed
  qed
qed


subsection \<open>Example runs\<close>

text \<open>A day, a raw batch of two records, an instruction file, and evaluators that always
  give the same answer or count their calls.\<close>

definition example_day :: string where
  "example_day = ''2025-03-01''"

definition example_world :: world where
  "example_world =
     \<lparr>files = [raw_path example_day None \<mapsto>
                 ''[{\"title\": \"Flood\"}, {\"title\": \"Storm\", \"count\": 3}]'',
               prompt_path \<mapsto> ''Rate this article: {state}''],
      trace = []\<rparr>"

definition answering :: "(event list \<Rightarrow> string) \<Rightarrow> env" where
  "answering f =
     \<lparr>evaluator = (\<lambda>tr t s. RespDict [(''state'', JString s), (''text'', JString (f tr))]),
      rewriter = (\<lambda>tr original feedback. RespStr original),
      json5_loads = None,
      listdir = (\<lambda>path. None)\<rparr>"

definition fenced_answer :: string where
  "fenced_answer =
     ''```json'' @ [CHR 0x0A] @ ''{\"tweet_worthiness\": 9, \"summary\": \"ok\"}'' @ [CHR 0x0A] @ ''```''"

definition counted_answer :: "event list \<Rightarrow> string" where
  "counted_answer tr =
     ''{\"tweet_worthiness\": '' @ str_of_int (int (length (responses tr))) @ '', \"summary\": \"n\"}''"

definition mixed_answer :: "event list \<Rightarrow> string" where
  "mixed_answer tr =
     (if responses tr = [] then ''no idea''
      else ''{\"tweet_worthiness\": 7, \"summary\": \"worth it\"}'')"

subsection \<open>Idempotency\<close>

text \<open>
  Claim C1: when the scored file of the day exists, the run returns at once: its only
  effect is one log record, so no file is changed, the evaluator is not asked and
  nothing is written. Hence a second run after a run that left the scored file leaves
  every file as the first run left it, whatever the evaluator would answer now.
\<close>

theorem run_simulation_idempotent:
  "(files w (scored_path today_str output_file) \<noteq> None \<longrightarrow>
      run_simulation env today_str input_file output_file w =
        (Inr (), emit (LogInfo (''Output file '' @ scored_path today_str output_file
                                @ '' already exists. Skipping simulation.'')) w)
      \<and> files (snd (run_simulation env today_str input_file output_file w)) = files w
      \<and> responses (new_events w (snd (run_simulation env today_str input_file output_file w))) = []
      \<and> writes (new_events w (snd (run_simulation env today_str input_file output_file w))) = [])
   \<and> (files (snd (run_simulation env today_str input_file output_file w))
         (scored_path today_str output_file) \<noteq> None \<longrightarrow>
       files (snd (run_simulation env' today_str input_file output_file
                     (snd (run_simulation env today_str input_file output_file w))))
         = files (snd (run_simulation env today_str input_file output_file w))
       \<and> responses (new_events (snd (run_simulation env today_str input_file output_file w))
            (snd (run_simulation env' today_str input_file output_file
                     (snd (run_simulation env today_str input_file output_file w))))) = [])"
proof -
  have skip: "run_simulation e today_str input_file output_file v =
        (Inr (), emit (LogInfo (''Output file '' @ scored_path today_str output_file
                                @ '' already exists. Skipping simulation.'')) v)
      \<and> files (snd (run_simulation e today_str input_file output_file v)) = files v
      \<and> responses (new_events v (snd (run_simulation e today_str input_file output_file v))) = []
      \<and> writes (new_events v (snd (run_simulation e today_str input_file output_file v))) = []"
    if "files v (scored_path today_str output_file) \<noteq> None" for e v
    using run_simulation_skip[OF that, of e input_file]
    by (simp add: emit_def new_events_def)
  show ?thesis
    using skip[of w env]
      skip[of "snd (run_simulation env today_str input_file output_file w)" env']
    by blast
qed

theorem run_simulation_idempotent_witness:
  "files (snd (run_simulation (answering counted_answer) example_day None None example_world))
     (scored_path example_day None)
   = Some (json_dump (JArray
       [JObject [(''title'', JString ''Flood''), (''tweet_worthiness'', JInt 0),
                 (''summary'', JString ''n'')],
        JObject [(''title'', JString ''Storm''), (''count'', JInt 3),
                 (''tweet_worthiness'', JInt 1), (''summary'', JString ''n'')]]))
   \<and> files (snd (run_simulation (answering counted_answer) example_day None None
              (snd (run_simulation (answering counted_answer) example_day None None example_world))))
     = files (snd (run_simulation (answering counted_answer) example_day None None example_world))
   \<and> responses (new_events
        (snd (run_simulation (answering counted_answer) example_day None None example_world))
        (snd (run_simulation (answering counted_answer) example_day None None
              (snd (run_simulation (answering counted_answer) example_day None None example_world)))))
     = []"
proof -
  have first: "files (snd (run_simulation (answering counted_answer) example_day None None example_world))
     (scored_path example_day None)
   = Some (json_dump (JArray
       [JObject [(''title'', JString ''Flood''), (''tweet_worthiness'', JInt 0),
                 (''summary'', JString ''n'')],
        JObject [(''title'', JString ''Storm''), (''count'', JInt 3),
                 (''tweet_worthiness'', JInt 1), (''summary'', JString ''n'')]]))"
    by code_simp
  then have "files (snd (run_simulation (answering counted_answer) example_day None None example_world))
     (scored_path example_day None) \<noteq> None"
    by (simp only: option.distinct not_False_eq_True)
  with run_simulation_idempotent[of example_world example_day None "answering counted_answer"
      None "answering counted_answer"] first
  show ?thesis by blast
qed

subsection \<open>Recovered verdicts\<close>

text \<open>
  Claim C6: the recovery protocol on an answer that is a fenced code block with a language
  tag. Trimming and removing the backquotes leaves the tag and the object; the text from
  the first opening brace to the last closing brace is the object, which decodes to the
  verdict \<open>{tweet_worthiness: 9, summary: "ok"}\<close>; merged into a record, it sets the two
  fields to 9 and \<open>ok\<close>. The same holds when the answer comes keyed under \<open>text\<close>.
\<close>

theorem parse_action_fenced_json:
  "py_strip (py_strip_chars ''`'' (py_strip fenced_answer))
     = ''json'' @ [CHR 0x0A] @ ''{\"tweet_worthiness\": 9, \"summary\": \"ok\"}''
   \<and> brace_search (''json'' @ [CHR 0x0A] @ ''{\"tweet_worthiness\": 9, \"summary\": \"ok\"}'')
     = Some ''{\"tweet_worthiness\": 9, \"summary\": \"ok\"}''
   \<and> parse_action (RespStr fenced_answer)
     = Inr (JObject [(''tweet_worthiness'', JInt 9), (''summary'', JString ''ok'')])
   \<and> parse_action (RespDict [(''text'', JString fenced_answer)])
     = Inr (JObject [(''tweet_worthiness'', JInt 9), (''summary'', JString ''ok'')])
   \<and> inject (JObject [(''title'', JString ''Flood'')]) (action_of (RespStr fenced_answer))
     = Inr (JObject [(''title'', JString ''Flood''), (''tweet_worthiness'', JInt 9),
                     (''summary'', JString ''ok'')])"
  by code_simp


lemma inject_fallback:
  assumes "isl (parse_action r)"
  shows "inject (JObject d) (action_of r) =
           Inr (JObject (dict_set ''summary'' (JString ''Could not evaluate article.'')
                  (dict_set ''tweet_worthiness'' (JInt 0) d)))"
  using assms
  by (cases "parse_action r")
     (simp_all add: action_of_def fallback_action_def inject_object dict_get_def)

text \<open>
  Claim C4 holds for an answer that cannot be decoded, as the lemmas above show, but not
  for every answer without a JSON object: an answer that decodes to a JSON value that is
  not an object, such as \<open>42\<close>, raises no exception inside the \<^verbatim>\<open>try\<close> block, and the
  \<^verbatim>\<open>action.get\<close> after it raises outside. On the example batch the run ends with that
  exception after the first evaluator call, the second record is never evaluated, and no
  scored file is written.
\<close>

theorem run_simulation_non_object_answer_is_fatal:
  "parse_action (RespDict [(''text'', JString ''42'')]) = Inr (JInt 42)
   \<and> fst (run_simulation (answering (\<lambda>tr. ''42'')) example_day None None example_world)
       = Inl AttributeError
   \<and> length (responses (trace (snd (run_simulation (answering (\<lambda>tr. ''42''))
                example_day None None example_world)))) = 1
   \<and> files (snd (run_simulation (answering (\<lambda>tr. ''42'')) example_day None None example_world))
       (scored_path example_day None) = None"
  by code_simp

subsection \<open>The scored batch\<close>

text \<open>
  Claim C3, as stated, at an answer whose score is out of range: the evaluator answers
  \<open>{"tweet_worthiness": 42, "summary": "x"}\<close>, and 42 is written to every record. Nothing
  in the stage checks the type or the range of the value.
\<close>

theorem run_simulation_keeps_out_of_range_score:
  "files (snd (run_simulation (answering (\<lambda>tr. ''{\"tweet_worthiness\": 42, \"summary\": \"x\"}''))
                 example_day None None example_world))
     (scored_path example_day None)
   = Some (json_dump (JArray
       [JObject [(''title'', JString ''Flood''), (''tweet_worthiness'', JInt 42),
                 (''summary'', JString ''x'')],
        JObject [(''title'', JString ''Storm''), (''count'', JInt 3),
                 (''tweet_worthiness'', JInt 42), (''summary'', JString ''x'')]]))
   \<and> \<not> (42 :: int) \<le> 10"
  by code_simp

text \<open>
  Claim C3, amended: in the batch a run has written, the \<open>tweet_worthiness\<close> of the i-th
  record is the value that the i-th evaluator answer, once decoded, carries under that
  key, taken as it is; it is the integer 0 when the decoded object has no such key and
  when the answer could not be decoded.
\<close>

theorem run_simulation_tweet_worthiness:
  assumes absent: "files w (scored_path today_str output_file) = None"
    and run: "run_simulation env today_str input_file output_file w = (res, w')"
    and written: "files w' (scored_path today_str output_file) = Some text"
  shows "\<exists>scored. text = json_dump (JArray scored)
           \<and> length scored = length (responses (new_events w w'))
           \<and> (\<forall>i<length scored. \<exists>v.
                 py_get (action_of (responses (new_events w w') ! i)) ''tweet_worthiness'' (JInt 0)
                   = Inr v
                 \<and> field ''tweet_worthiness'' (scored ! i) = Some v
                 \<and> (isl (parse_action (responses (new_events w w') ! i)) \<longrightarrow> v = JInt 0))"
proof -
  from run_simulation_written_batch[OF absent run written] obtain items scored where
    tx: "text = json_dump (JArray scored)"
    and len: "length (responses (new_events w w')) = length items"
    and ok: "list_all2 (\<lambda>a r. \<not> isl (inject a (action_of r))) items
               (responses (new_events w w'))"
    and sc: "scored = map2 (\<lambda>a r. projr (inject a (action_of r))) items
               (responses (new_events w w'))"
    by blast
  define evs where "evs = new_events w w'"
  note len = len[folded evs_def] and ok = ok[folded evs_def] and sc = sc[folded evs_def]
  have rs: "responses (new_events w w') = responses evs"
    by (simp add: evs_def)
  have n: "length scored = length (responses evs)"
    using sc len by simp
  have each: "\<exists>v. py_get (action_of (responses evs ! i)) ''tweet_worthiness'' (JInt 0) = Inr v
                 \<and> field ''tweet_worthiness'' (scored ! i) = Some v
                 \<and> (isl (parse_action (responses evs ! i)) \<longrightarrow> v = JInt 0)"
    if i: "i < length scored" for i
  proof -
    from i n len have ii: "i < length items" "i < length (responses evs)" by simp_all
    from ok ii have "\<not> isl (inject (items ! i) (action_of (responses evs ! i)))"
      by (simp add: list_all2_conv_all_nth)
    then obtain x where x: "inject (items ! i) (action_of (responses evs ! i)) = Inr x"
      by (cases "inject (items ! i) (action_of (responses evs ! i))") auto
    from sc ii have si: "scored ! i = projr (inject (items ! i) (action_of (responses evs ! i)))"
      by simp
    from inject_Inr[OF x] obtain dd a where
      a: "action_of (responses evs ! i) = JObject a"
      and xx: "x = JObject (dict_set ''summary'' (dict_get a ''summary'' (JString ''No summary provided''))
             (dict_set ''tweet_worthiness'' (dict_get a ''tweet_worthiness'' (JInt 0)) dd))"
      by blast
    have f: "field ''tweet_worthiness'' (scored ! i) = Some (dict_get a ''tweet_worthiness'' (JInt 0))"
      using si x xx by (simp add: field_def map_of_dict_set)
    have fb: "dict_get a ''tweet_worthiness'' (JInt 0) = JInt 0"
      if "isl (parse_action (responses evs ! i))"
      using that a
      by (cases "parse_action (responses evs ! i)")
         (auto simp: action_of_def fallback_action_def dict_get_def)
    from f a fb show ?thesis
      by (simp add: py_get_def)
  qed
  show ?thesis
    using tx n rs each by (intro exI[of _ scored]) simp
qed

theorem run_simulation_tweet_worthiness_witness:
  "\<exists>scored.
     files (snd (run_simulation (answering mixed_answer) example_day None None example_world))
       (scored_path example_day None) = Some (json_dump (JArray scored))
     \<and> field ''tweet_worthiness'' (scored ! 0) = Some (JInt 0)
     \<and> field ''tweet_worthiness'' (scored ! 1) = Some (JInt 7)"
proof -
  define res where
    "res = fst (run_simulation (answering mixed_answer) example_day None None example_world)"
  define w' where
    "w' = snd (run_simulation (answering mixed_answer) example_day None None example_world)"
  have run: "run_simulation (answering mixed_answer) example_day None None example_world = (res, w')"
    by (simp add: res_def w'_def)
  have absent: "files example_world (scored_path example_day None) = None"
    by code_simp
  have written: "files w' (scored_path example_day None) = Some (json_dump (JArray
       [JObject [(''title'', JString ''Flood''), (''tweet_worthiness'', JInt 0),
                 (''summary'', JString ''Could not evaluate article.'')],
        JObject [(''title'', JString ''Storm''), (''count'', JInt 3),
                 (''tweet_worthiness'', JInt 7), (''summary'', JString ''worth it'')]]))"
    unfolding w'_def by code_simp
  have a0: "py_get (action_of (responses (new_events example_world w') ! 0))
              ''tweet_worthiness'' (JInt 0) = Inr (JInt 0)"
    unfolding w'_def by code_simp
  have a1: "py_get (action_of (responses (new_events example_world w') ! 1))
              ''tweet_worthiness'' (JInt 0) = Inr (JInt 7)"
    unfolding w'_def by code_simp
  have n: "length (responses (new_events example_world w')) = 2"
    unfolding w'_def by code_simp
  from run_simulation_tweet_worthiness[OF absent run written] obtain scored where
    tx: "json_dump (JArray
       [JObject [(''title'', JString ''Flood''), (''tweet_worthiness'', JInt 0),
                 (''summary'', JString ''Could not evaluate article.'')],
        JObject [(''title'', JString ''Storm''), (''count'', JInt 3),
                 (''tweet_worthiness'', JInt 7), (''summary'', JString ''worth it'')]])
         = json_dump (JArray scored)"
    and len: "length scored = length (responses (new_events example_world w'))"
    and each: "\<forall>i<length scored. \<exists>v.
                 py_get (action_of (responses (new_events example_world w') ! i))
                   ''tweet_worthiness'' (JInt 0) = Inr v
                 \<and> field ''tweet_worthiness'' (scored ! i) = Some v
                 \<and> (isl (parse_action (responses (new_events example_world w') ! i)) \<longrightarrow>
                      v = JInt 0)"
    by blast
  from len n have "0 < length scored" "1 < length scored" by simp_all
  with each a0 a1 have "field ''tweet_worthiness'' (scored ! 0) = Some (JInt 0)"
    and "field ''tweet_worthiness'' (scored ! 1) = Some (JInt 7)"
    by fastforce+
  with written tx show ?thesis
    unfolding w'_def by (intro exI[of _ scored]) simp
qed




subsection \<open>Reading the instructions\<close>

text \<open>
  Claim C9, as stated, on the example batch of two records: the instruction file is read
  twice during the run, once before each evaluator call, since \<^verbatim>\<open>get_agent_action\<close> calls
  \<^verbatim>\<open>get_agent_prompt\<close> for every record.
\<close>

theorem run_simulation_reads_instructions_twice:
  "count_list
     (trace (snd (run_simulation (answering counted_answer) example_day None None example_world)))
     (FileRead prompt_path) = 2
   \<and> take 3 (trace (snd (run_simulation (answering (\<lambda>tr. ''{}'')) example_day None None example_world)))
     = [FileRead (raw_path example_day None),
        FileRead prompt_path,
        EvaluatorCall ''Rate this article: {state}''
          (''Title: Flood'' @ [CHR 0x0A] @ ''Name: N/A'' @ [CHR 0x0A] @ ''Count: N/A''
             @ [CHR 0x0A] @ ''HTML: '')
          (RespDict [(''state'', JString (''Title: Flood'' @ [CHR 0x0A] @ ''Name: N/A''
             @ [CHR 0x0A] @ ''Count: N/A'' @ [CHR 0x0A] @ ''HTML: '')), (''text'', JString ''{}'')])]"
  by code_simp

text \<open>
  Claim C9, amended: during a scoring run the instruction file, when it exists, is read
  once for every evaluator call, that is once per record: a run that writes a batch of N
  records has read it N times, and a run that is skipped does not read it. (When the
  file does not exist it is never read: the built-in instructions are used.)
\<close>

theorem run_simulation_reads_instructions_per_call:
  assumes other: "raw_path today_str input_file \<noteq> prompt_path"
    and run: "run_simulation env today_str input_file output_file w = (res, w')"
  shows "count_list (new_events w w') (FileRead prompt_path)
           = (if files w prompt_path = None then 0 else length (responses (new_events w w')))
         \<and> (files w (scored_path today_str output_file) \<noteq> None \<longrightarrow>
               count_list (new_events w w') (FileRead prompt_path) = 0)
         \<and> (files w (scored_path today_str output_file) = None \<longrightarrow>
             files w' (scored_path today_str output_file) \<noteq> None \<longrightarrow>
               (\<exists>scored. files w' (scored_path today_str output_file) = Some (json_dump (JArray scored))
                  \<and> length (responses (new_events w w')) = length scored))"
proof -
  from run_simulation_events[OF run] other obtain evs where
    t: "trace w' = trace w @ evs"
    and c: "count_list evs (FileRead prompt_path) =
              (if files w prompt_path = None then 0 else length (responses evs))"
    by blast
  then have first: "count_list (new_events w w') (FileRead prompt_path)
           = (if files w prompt_path = None then 0 else length (responses (new_events w w')))"
    by (simp add: new_events_def)
  have second: "count_list (new_events w w') (FileRead prompt_path) = 0"
    if "files w (scored_path today_str output_file) \<noteq> None"
    using run run_simulation_skip[OF that, of env input_file]
    by (auto simp: new_events_def emit_def)
  have third: "\<exists>scored. files w' (scored_path today_str output_file) = Some (json_dump (JArray scored))
                  \<and> length (responses (new_events w w')) = length scored"
    if absent: "files w (scored_path today_str output_file) = None"
      and present: "files w' (scored_path today_str output_file) \<noteq> None"
  proof -
    from present obtain tx where
      written: "files w' (scored_path today_str output_file) = Some tx"
      by auto
    from run_simulation_written_batch[OF absent run written] written
    show ?thesis by auto
  qed
  from first second third show ?thesis by blast
qed

theorem run_simulation_reads_instructions_per_call_witness:
  "count_list
     (new_events example_world
        (snd (run_simulation (answering mixed_answer) example_day None None example_world)))
     (FileRead prompt_path)
   = length (responses (new_events example_world
        (snd (run_simulation (answering mixed_answer) example_day None None example_world))))
   \<and> length (responses (new_events example_world
        (snd (run_simulation (answering mixed_answer) example_day None None example_world)))) = 2"
proof -
  have other: "raw_path example_day None \<noteq> prompt_path"
    by code_simp
  have present: "files example_world prompt_path \<noteq> None"
    by code_simp
  have two: "length (responses (new_events example_world
        (snd (run_simulation (answering mixed_answer) example_day None None example_world)))) = 2"
    by code_simp
  have run: "run_simulation (answering mixed_answer) example_day None None example_world
      = (fst (run_simulation (answering mixed_answer) example_day None None example_world),
         snd (run_simulation (answering mixed_answer) example_day None None example_world))"
    by simp
  from run_simulation_reads_instructions_per_call[OF other run] present two
  show ?thesis by simp
qed

section \<open>Summary stage: deduplication\<close>

text \<open>\<^verbatim>\<open>article.get("title", "").strip().lower()\<close>; a title that is not a string has no
  \<^verbatim>\<open>strip\<close>.\<close>

definition normalized_title :: "json \<Rightarrow> error + string" where
  "normalized_title article =
     (case py_get article ''title'' (JString []) of
        Inl e \<Rightarrow> Inl e
      | Inr (JString t) \<Rightarrow> Inr (py_lower (py_strip t))
      | Inr _ \<Rightarrow> Inl AttributeError)"

fun dedup_loop :: "string set \<Rightarrow> json list \<Rightarrow> json list \<Rightarrow> error + json list" where
  "dedup_loop seen unique_articles [] = Inr unique_articles"
| "dedup_loop seen unique_articles (article # rest) =
     (case normalized_title article of
        Inl e \<Rightarrow> Inl e
      | Inr title \<Rightarrow>
          if title \<noteq> [] \<and> title \<notin> seen
          then dedup_loop (insert title seen) (unique_articles @ [article]) rest
          else dedup_loop seen unique_articles rest)"

definition deduplicate_articles :: "json list \<Rightarrow> error + json list" where
  "deduplicate_articles articles = dedup_loop {} [] articles"

subsection \<open>What the loop keeps\<close>

text \<open>The normalized title of a record whose title is text, and the records the loop
  appends: those whose normalized title is non-empty and was not seen before.\<close>

definition title_key :: "json \<Rightarrow> string" where
  "title_key a = (case normalized_title a of Inr t \<Rightarrow> t | Inl _ \<Rightarrow> [])"

fun first_titles :: "string set \<Rightarrow> json list \<Rightarrow> json list" where
  "first_titles seen [] = []"
| "first_titles seen (a # as) =
     (if title_key a \<noteq> [] \<and> title_key a \<notin> seen
      then a # first_titles (insert (title_key a) seen) as
      else first_titles seen as)"

lemma dedup_loop_first_titles:
  "list_all (\<lambda>a. \<not> isl (normalized_title a)) as \<Longrightarrow>
   dedup_loop seen u as = Inr (u @ first_titles seen as)"
  by (induction as arbitrary: seen u) (auto simp: title_key_def split: sum.splits)

lemma first_titles_subseq: "subseq (first_titles seen as) as"
  by (induction as arbitrary: seen) auto

lemma first_titles_keys:
  "title_key ` set (first_titles seen as) = title_key ` set as - seen - {[]}"
  by (induction as arbitrary: seen) auto

lemma first_titles_distinct: "distinct (map title_key (first_titles seen as))"
  by (induction as arbitrary: seen) (auto simp: first_titles_keys)

lemma first_titles_find:
  "b \<in> set (first_titles seen as) \<Longrightarrow> find (\<lambda>a. title_key a = title_key b) as = Some b"
proof (induction as arbitrary: seen)
  case Nil
  then show ?case by simp
next
  case (Cons a as)
  show ?case
  proof (cases "title_key a \<noteq> [] \<and> title_key a \<notin> seen")
    case True
    with Cons.prems have "b = a \<or> b \<in> set (first_titles (insert (title_key a) seen) as)"
      by auto
    then show ?thesis
    proof
      assume "b = a"
      then show ?thesis by simp
    next
      assume b: "b \<in> set (first_titles (insert (title_key a) seen) as)"
      then have "title_key b \<in> title_key ` set as - insert (title_key a) seen - {[]}"
        using first_titles_keys by blast
      then have "title_key a \<noteq> title_key b" by auto
      with Cons.IH[OF b] show ?thesis by simp
    qed
  next
    case False
    with Cons.prems have b: "b \<in> set (first_titles seen as)" by auto
    then have "title_key b \<in> title_key ` set as - seen - {[]}"
      using first_titles_keys by blast
    with False have "title_key a \<noteq> title_key b" by auto
    with Cons.IH[OF b] show ?thesis by simp
  qed
qed

text \<open>
  Claim C2, as stated, at the input of the specification: titles \<open>Flood Hits City\<close>,
  \<open>flood hits city\<close> and two empty titles. The guard \<^verbatim>\<open>if title and title not in seen\<close>
  appends a record only when its normalized title is non-empty, so the two empty-title
  records are dropped as well: one record survives, not three.
\<close>

theorem deduplicate_articles_drops_empty_titles:
  "deduplicate_articles
     [JObject [(''title'', JString ''Flood Hits City'')],
      JObject [(''title'', JString ''flood hits city'')],
      JObject [(''title'', JString [])],
      JObject [(''title'', JString [])]]
   = Inr [JObject [(''title'', JString ''Flood Hits City'')]]
   \<and> length [JObject [(''title'', JString ''Flood Hits City'')]] \<noteq> (3::nat)"
  by code_simp

text \<open>
  Claim C2, amended: on a batch of records whose titles are text (or absent), the
  deduplication returns, in input order, exactly the first record of each distinct
  non-empty normalized (trimmed, lower-cased) title. Every later record with the same
  normalized title is dropped, and so is every record whose normalized title is empty.
\<close>

theorem deduplicate_articles_first_nonempty:
  assumes "list_all (\<lambda>a. \<not> isl (normalized_title a)) articles"
  shows "\<exists>out. deduplicate_articles articles = Inr out
           \<and> subseq out articles
           \<and> distinct (map title_key out)
           \<and> title_key ` set out = title_key ` set articles - {[]}
           \<and> (\<forall>b\<in>set out. find (\<lambda>a. title_key a = title_key b) articles = Some b)"
proof -
  have "deduplicate_articles articles = Inr (first_titles {} articles)"
    using dedup_loop_first_titles[OF assms, of "{}" "[]"]
    by (simp add: deduplicate_articles_def)
  moreover have "subseq (first_titles {} articles) articles"
    by (rule first_titles_subseq)
  moreover have "distinct (map title_key (first_titles {} articles))"
    by (rule first_titles_distinct)
  moreover have "title_key ` set (first_titles {} articles) = title_key ` set articles - {[]}"
    using first_titles_keys[of "{}" articles] by simp
  moreover have "\<forall>b\<in>set (first_titles {} articles).
      find (\<lambda>a. title_key a = title_key b) articles = Some b"
    using first_titles_find by blast
  ultimately show ?thesis by blast
qed

theorem deduplicate_articles_first_nonempty_witness:
  "list_all (\<lambda>a. \<not> isl (normalized_title a))
     [JObject [(''title'', JString '' Storm '')],
      JObject [(''name'', JString ''untitled'')],
      JObject [(''title'', JString ''STORM''), (''name'', JString ''later'')]]
   \<and> (\<exists>out. deduplicate_articles
         [JObject [(''title'', JString '' Storm '')],
          JObject [(''name'', JString ''untitled'')],
          JObject [(''title'', JString ''STORM''), (''name'', JString ''later'')]] = Inr out
        \<and> length out = 1
        \<and> find (\<lambda>a. title_key a = ''storm'')
             [JObject [(''title'', JString '' Storm '')],
              JObject [(''name'', JString ''untitled'')],
              JObject [(''title'', JString ''STORM''), (''name'', JString ''later'')]]
           = Some (hd out))"
proof -
  let ?xs = "[JObject [(''title'', JString '' Storm '')],
      JObject [(''name'', JString ''untitled'')],
      JObject [(''title'', JString ''STORM''), (''name'', JString ''later'')]]"
  have h: "list_all (\<lambda>a. \<not> isl (normalized_title a)) ?xs"
    by code_simp
  have e: "deduplicate_articles ?xs = Inr [JObject [(''title'', JString '' Storm '')]]"
    by code_simp
  have k: "title_key (JObject [(''title'', JString '' Storm '')]) = ''storm''"
    by code_simp
  from deduplicate_articles_first_nonempty[OF h] obtain out where
    o: "deduplicate_articles ?xs = Inr out"
    and f: "\<forall>b\<in>set out. find (\<lambda>a. title_key a = title_key b) ?xs = Some b"
    by blast
  from o e have out: "out = [JObject [(''title'', JString '' Storm '')]]" by simp
  with f k have "find (\<lambda>a. title_key a = ''storm'') ?xs = Some (hd out)" by simp
  with h o out show ?thesis by simp
qed

section \<open>Feedback aggregator and prompt rewriter\<close>

subsection \<open>The sibling in \<^verbatim>\<open>prompt_updater.py\<close>: \<^verbatim>\<open>improve_prompt\<close>\<close>

text \<open>\<^verbatim>\<open>json.load\<close> of a file.\<close>

definition load_json_file :: "string \<Rightarrow> world \<Rightarrow> (error + json) \<times> world" where
  "load_json_file path w =
     (case files w path of
        None \<Rightarrow> (Inl FileNotFoundError, w)
      | Some file_content \<Rightarrow> (json_loads file_content, emit (FileRead path) w))"

definition endswith :: "string \<Rightarrow> string \<Rightarrow> bool" where
  "endswith s p = startswith (rev s) (rev p)"

text \<open>\<^verbatim>\<open>os.path.join\<close> of two components.\<close>

definition path_join :: "string \<Rightarrow> string \<Rightarrow> string" where
  "path_join a b =
     (if startswith b ''/'' then b
      else if a = [] \<or> endswith a ''/'' then a @ b
      else a @ ''/'' @ b)"

text \<open>The loop over the daily directory: every \<open>.json\<close> file that loads and can be
  iterated extends the list; a file that fails is logged and skipped.\<close>

fun load_daily :: "string \<Rightarrow> string list \<Rightarrow> json list \<Rightarrow> world \<Rightarrow> json list \<times> world" where
  "load_daily daily_dir [] articles w = (articles, w)"
| "load_daily daily_dir (filename # rest) articles w =
     (if endswith (py_lower filename) ''.json'' then
        (case load_json_file (path_join daily_dir filename) w of
           (Inl e, w1) \<Rightarrow>
             load_daily daily_dir rest articles (emit (LogError (''Failed to load file '' @ filename)) w1)
         | (Inr daily_articles, w1) \<Rightarrow>
             (case iterate daily_articles of
                Inl e \<Rightarrow>
                  load_daily daily_dir rest articles
                    (emit (LogError (''Failed to load file '' @ filename)) w1)
              | Inr items \<Rightarrow> load_daily daily_dir rest (articles @ items) w1))
      else load_daily daily_dir rest articles w)"

text \<open>The two identical blocks that load \<open>generated_json_path\<close>: the value of the file, or
  the log record after which the function returns \<open>False\<close>.\<close>

definition load_generated :: "string \<Rightarrow> world \<Rightarrow> json option \<times> world" where
  "load_generated generated_json_path w =
     (if files w generated_json_path \<noteq> None then
        (case load_json_file generated_json_path w of
           (Inl e, w1) \<Rightarrow> (None, emit (LogError ''Failed to load generated articles'') w1)
         | (Inr articles, w1) \<Rightarrow> (Some articles, w1))
      else (None, emit (LogError (''Generated articles file not found: '' @ generated_json_path)) w))"

text \<open>Lines 28 to 67: where the articles come from. The result is \<open>None\<close> when the function
  returns \<open>False\<close> at this point.\<close>

definition select_articles ::
  "env \<Rightarrow> string \<Rightarrow> string option \<Rightarrow> world \<Rightarrow> json option \<times> world" where
  "select_articles env generated_json_path daily_dir w =
     (case daily_dir of
        None \<Rightarrow> load_generated generated_json_path w
      | Some dir \<Rightarrow>
          (let (articles, w1) =
                 (case listdir env dir of
                    Some names \<Rightarrow> load_daily dir names [] w
                  | None \<Rightarrow> ([], emit (LogError (''Provided daily_dir '' @ dir
                                                   @ '' is not a directory.'')) w))
           in if articles = [] then
                load_generated generated_json_path
                  (emit (LogInfo (''No daily articles found in '' @ dir
                                  @ '', falling back to generated_json_path.'')) w1)
              else (Some (JArray articles),
                    emit (LogInfo (''Aggregated '' @ str_of_int (int (length articles))
                                   @ '' articles from daily directory.'')) w1)))"

subsection \<open>Aggregation\<close>

fun is_infix :: "string \<Rightarrow> string \<Rightarrow> bool" where
  "is_infix p [] = (p = [])"
| "is_infix p (c # cs) = (startswith (c # cs) p \<or> is_infix p cs)"

text \<open>\<^verbatim>\<open>k in x\<close> for a string \<open>k\<close>: a key of a dict, an element of a list, a part of a
  string.\<close>

definition contains :: "json \<Rightarrow> string \<Rightarrow> error + bool" where
  "contains x k =
     (case x of
        JObject d \<Rightarrow> Inr (map_of d k \<noteq> None)
      | JArray xs \<Rightarrow> Inr (JString k \<in> set xs)
      | JString s \<Rightarrow> Inr (is_infix k s)
      | _ \<Rightarrow> Inl TypeError)"

text \<open>\<^verbatim>\<open>x[k]\<close> for a string \<open>k\<close>.\<close>

definition get_item :: "json \<Rightarrow> string \<Rightarrow> error + json" where
  "get_item x k =
     (case x of
        JObject d \<Rightarrow> (case map_of d k of Some v \<Rightarrow> Inr v | None \<Rightarrow> Inl KeyError)
      | _ \<Rightarrow> Inl TypeError)"

text \<open>\<^verbatim>\<open>"user_score" in article and "user_reasoning" in article\<close>.\<close>

definition reviewed :: "json \<Rightarrow> error + bool" where
  "reviewed article =
     ebind (contains article ''user_score'') (\<lambda>has_score.
       if has_score then contains article ''user_reasoning'' else Inr False)"

text \<open>The loop of lines 71 to 78, with its two lists.\<close>

fun collect_feedback ::
  "json list \<Rightarrow> pyfloat list \<Rightarrow> string list \<Rightarrow> error + pyfloat list \<times> string list" where
  "collect_feedback [] human_scores feedback_entries = Inr (human_scores, feedback_entries)"
| "collect_feedback (article # rest) human_scores feedback_entries =
     ebind (reviewed article) (\<lambda>both.
       if both then
         (case ebind (get_item article ''user_score'') py_float of
            Inl e \<Rightarrow> collect_feedback rest human_scores feedback_entries
          | Inr score \<Rightarrow>
              ebind (get_item article ''user_reasoning'') (\<lambda>user_reasoning.
                collect_feedback rest (human_scores @ [score])
                  (feedback_entries
                   @ [''Score: '' @ format_fixed 1 score @ '' - '' @ py_str user_reasoning])))
       else collect_feedback rest human_scores feedback_entries)"

text \<open>Lines 84 to 91: the mean and the feedback document.\<close>

definition average :: "pyfloat list \<Rightarrow> pyfloat" where
  "average human_scores = float_div_int (py_sum human_scores) (int (length human_scores))"

definition feedback_section :: "pyfloat list \<Rightarrow> string list \<Rightarrow> string" where
  "feedback_section human_scores feedback_entries =
     [CHR 0x0A, CHR 0x0A] @ ''=== Human Feedback Integration ==='' @ [CHR 0x0A]
     @ ''Average Human Score: '' @ format_fixed 2 (average human_scores) @ [CHR 0x0A]
     @ ''Detailed Feedback:'' @ [CHR 0x0A]
     @ concat (map (\<lambda>entry. entry @ [CHR 0x0A]) feedback_entries)"

subsection \<open>Rewriting and archiving\<close>

text \<open>\<^verbatim>\<open>agent_improve_prompt\<close>: the answer of the rewriter, unwrapped and trimmed.\<close>

definition agent_improve_prompt ::
  "env \<Rightarrow> string \<Rightarrow> string \<Rightarrow> world \<Rightarrow> (error + string) \<times> world" where
  "agent_improve_prompt env original_prompt feedback w =
     (let raw_response = rewriter env (trace w) original_prompt feedback;
          w1 = emit (RewriterCall original_prompt feedback raw_response) w
      in case raw_response of
           RespError \<Rightarrow> (Inl CollaboratorError, w1)
         | RespStr s \<Rightarrow> (Inr (py_strip s), w1)
         | RespDict d \<Rightarrow>
             (case map_of d ''text'' of
                Some (JString s) \<Rightarrow> (Inr (py_strip s), w1)
              | _ \<Rightarrow> (Inl AttributeError, w1))
         | RespOther s \<Rightarrow> (Inl AttributeError, w1))"

text \<open>\<^verbatim>\<open>os.rename\<close> of every \<open>.json\<close> file of the daily directory into the archive.\<close>

fun archive_daily :: "string \<Rightarrow> string \<Rightarrow> string list \<Rightarrow> world \<Rightarrow> world" where
  "archive_daily daily_dir archive_dir [] w = w"
| "archive_daily daily_dir archive_dir (filename # rest) w =
     (if endswith (py_lower filename) ''.json'' then
        (case files w (path_join daily_dir filename) of
           None \<Rightarrow>
             archive_daily daily_dir archive_dir rest
               (emit (LogError (''Failed to archive file '' @ filename)) w)
         | Some file_content \<Rightarrow>
             archive_daily daily_dir archive_dir rest
               (emit (LogInfo (''Archived daily file: '' @ filename))
                  (w\<lparr>files := (files w)(path_join daily_dir filename := None,
                                          path_join archive_dir filename \<mapsto> file_content)\<rparr>)))
      else archive_daily daily_dir archive_dir rest w)"

text \<open>The final \<^verbatim>\<open>try\<close> statement: read the instructions, rewrite them, overwrite the
  file, archive.\<close>

definition rewrite_and_save ::
  "env \<Rightarrow> string option \<Rightarrow> string \<Rightarrow> string \<Rightarrow> world \<Rightarrow> bool \<times> world" where
  "rewrite_and_save env daily_dir prompt_file feedback w =
     (let (original_prompt, w1) =
            (case files w prompt_file of
               Some text \<Rightarrow> (text, emit (FileRead prompt_file) w)
             | None \<Rightarrow> ([], w))
      in case agent_improve_prompt env original_prompt feedback w1 of
           (Inl e, w2) \<Rightarrow> (False, emit (LogError ''Failed to save updated prompt'') w2)
         | (Inr improved_prompt, w2) \<Rightarrow>
             (let w3 = emit (LogInfo (''Agent-improved prompt saved to '' @ prompt_file))
                         (emit (FileWrite prompt_file)
                            (w2\<lparr>files := (files w2)(prompt_file \<mapsto> improved_prompt)\<rparr>))
              in case daily_dir of
                   None \<Rightarrow> (True, w3)
                 | Some dir \<Rightarrow>
                     (case listdir env dir of
                        None \<Rightarrow> (False, emit (LogError ''Failed to save updated prompt'') w3)
                      | Some names \<Rightarrow>
                          (True, archive_daily dir (path_join (dirname dir) ''processed_daily'')
                                   names w3))))"

definition improve_prompt ::
  "env \<Rightarrow> string \<Rightarrow> string option \<Rightarrow> string \<Rightarrow> world \<Rightarrow> (error + bool) \<times> world" where
  "improve_prompt env generated_json_path daily_dir prompt_file w =
     (case select_articles env generated_json_path daily_dir w of
        (None, w1) \<Rightarrow> (Inr False, w1)
      | (Some articles, w1) \<Rightarrow>
          (case ebind (iterate articles) (\<lambda>items. collect_feedback items [] []) of
             Inl e \<Rightarrow> (Inl e, w1)
           | Inr (human_scores, feedback_entries) \<Rightarrow>
               if human_scores = [] then
                 (Inr False,
                  emit (LogInfo ''No human feedback scores available to update prompt.'') w1)
               else
                 (case rewrite_and_save env daily_dir prompt_file
                         (feedback_section human_scores feedback_entries) w1 of
                    (updated, w2) \<Rightarrow> (Inr updated, w2))))"

subsection \<open>The command: \<^verbatim>\<open>run_prompt_update\<close> and \<^verbatim>\<open>prompt_agent.improve_agent_prompt\<close>\<close>

text \<open>
  The command calls \<^verbatim>\<open>improve_agent_prompt\<close> of the module \<^verbatim>\<open>prompt_agent\<close>, not the function
  above. Its body starts with \<^verbatim>\<open>raw_response = chain.run(...)\<close>; the module defines nothing
  but the function and imports nothing, so the name \<open>chain\<close> is bound neither in the
  function, nor in the module, nor among the built-in names: evaluating it raises
  \<open>NameError\<close>, before anything is read, asked or written.
\<close>

definition improve_agent_prompt ::
  "string \<Rightarrow> string option \<Rightarrow> string \<Rightarrow> world \<Rightarrow> (error + json) \<times> world" where
  "improve_agent_prompt generated_json_path daily_dir prompt_file w = (Inl (NameError ''chain''), w)"

record update_args =
  generated :: string
  daily_dir :: "string option"
  prompt :: string

definition run_prompt_update :: "string \<Rightarrow> update_args \<Rightarrow> world \<Rightarrow> (error + unit) \<times> world" where
  "run_prompt_update today_str args w =
     (let default_generated = ''data/scored/generated_scored_articles_'' @ today_str @ ''.json'';
          args = (if generated args = ''data/generated_scored_articles.json''
                  then args\<lparr>generated := default_generated\<rparr> else args)
      in case improve_agent_prompt (generated args) (daily_dir args) (prompt args) w of
           (Inl e, w1) \<Rightarrow> (Inl e, w1)
         | (Inr updated, w1) \<Rightarrow>
             (Inr (), emit (Print (if truthy updated then ''Prompt updated successfully.''
                                   else ''Failed to update prompt.'')) w1))"

subsection \<open>The update command\<close>

text \<open>A scored file with human feedback, for the examples: scores 6 and 8, a score that
  is no number, and a record that was not reviewed.\<close>

definition reviewed_path :: string where
  "reviewed_path = ''data/scored/generated_scored_articles_2025-03-01.json''"

definition reviewed_world :: world where
  "reviewed_world =
     \<lparr>files = [reviewed_path \<mapsto>
                 ''[{\"title\": \"a\", \"user_score\": 6, \"user_reasoning\": \"local only\"},''
                 @ '' {\"title\": \"b\", \"user_score\": 8, \"user_reasoning\": \"urgent\"},''
                 @ '' {\"title\": \"c\", \"user_score\": \"x\", \"user_reasoning\": \"unsure\"},''
                 @ '' {\"title\": \"d\", \"tweet_worthiness\": 3}]'',
               prompt_path \<mapsto> ''Rate this article: {state}''],
      trace = []\<rparr>"

text \<open>The records of that file.\<close>

definition reviewed_records :: "json list" where
  "reviewed_records =
     [JObject [(''title'', JString ''a''), (''user_score'', JInt 6),
               (''user_reasoning'', JString ''local only'')],
      JObject [(''title'', JString ''b''), (''user_score'', JInt 8),
               (''user_reasoning'', JString ''urgent'')],
      JObject [(''title'', JString ''c''), (''user_score'', JString ''x''),
               (''user_reasoning'', JString ''unsure'')],
      JObject [(''title'', JString ''d''), (''tweet_worthiness'', JInt 3)]]"

definition rewriting :: "string \<Rightarrow> env" where
  "rewriting answer =
     \<lparr>evaluator = (\<lambda>tr t s. RespError),
      rewriter = (\<lambda>tr original feedback. RespStr answer),
      json5_loads = None,
      listdir = (\<lambda>path. None)\<rparr>"

text \<open>
  Claim C7 is what the sibling function does, and what the command's help text and the
  comment in \<^verbatim>\<open>main.py\<close> announce; the command itself always ends with the \<open>NameError\<close>
  of \<^verbatim>\<open>improve_agent_prompt\<close>: no new instructions are produced, the instruction file is
  not written and no success is reported, whatever the scored file holds.
\<close>

theorem run_prompt_update_raises_name_error:
  "run_prompt_update today_str args w = (Inl (NameError ''chain''), w)
   \<and> fst (run_prompt_update example_day
            \<lparr>generated = ''data/generated_scored_articles.json'', daily_dir = None,
             prompt = prompt_path\<rparr> reviewed_world) = Inl (NameError ''chain'')
   \<and> files (snd (run_prompt_update example_day
            \<lparr>generated = ''data/generated_scored_articles.json'', daily_dir = None,
             prompt = prompt_path\<rparr> reviewed_world)) prompt_path
       = Some ''Rate this article: {state}''"
  by (simp add: run_prompt_update_def improve_agent_prompt_def Let_def reviewed_world_def)

text \<open>On the same input the sibling \<^verbatim>\<open>improve_prompt\<close> overwrites the instruction file with
  the rewriter's answer and returns \<open>True\<close>.\<close>

lemma improve_prompt_updates:
  "fst (improve_prompt (rewriting ''  Prefer urgent stories. {state} '') reviewed_path None
          prompt_path reviewed_world) = Inr True
   \<and> files (snd (improve_prompt (rewriting ''  Prefer urgent stories. {state} '') reviewed_path None
          prompt_path reviewed_world)) prompt_path = Some ''Prefer urgent stories. {state}''"
  by code_simp

subsection \<open>The feedback document\<close>

text \<open>A record that counts: it carries \<open>user_score\<close> and \<open>user_reasoning\<close>, and its score
  can be made a float. Its score and its line of the feedback document.\<close>

definition counted :: "json \<Rightarrow> bool" where
  "counted a =
     (case (field ''user_score'' a, field ''user_reasoning'' a) of
        (Some s, Some r) \<Rightarrow> \<not> isl (py_float s)
      | _ \<Rightarrow> False)"

definition score_of :: "json \<Rightarrow> pyfloat" where
  "score_of a = projr (py_float (the (field ''user_score'' a)))"

definition entry_of :: "json \<Rightarrow> string" where
  "entry_of a =
     ''Score: '' @ format_fixed 1 (score_of a) @ '' - '' @ py_str (the (field ''user_reasoning'' a))"

lemma collect_feedback_counted:
  assumes "list_all is_object articles"
  shows "collect_feedback articles human_scores feedback_entries =
           Inr (human_scores @ map score_of (filter counted articles),
                feedback_entries @ map entry_of (filter counted articles))"
  using assms
proof (induction articles arbitrary: human_scores feedback_entries)
  case Nil
  then show ?case by simp
next
  case (Cons a articles)
  then obtain d where d: "a = JObject d"
    by (cases a) auto
  from Cons.prems have rest: "list_all is_object articles" by simp
  show ?case
  proof (cases "map_of d ''user_score''")
    case None
    with d Cons.IH[OF rest] show ?thesis
      by (simp add: reviewed_def contains_def ebind_def counted_def field_def)
  next
    case s: (Some s)
    show ?thesis
    proof (cases "map_of d ''user_reasoning''")
      case None
      with d s Cons.IH[OF rest] show ?thesis
        by (simp add: reviewed_def contains_def ebind_def counted_def field_def)
    next
      case r: (Some r)
      show ?thesis
      proof (cases "py_float s")
        case (Inl e)
        with d s r Cons.IH[OF rest] show ?thesis
          by (simp add: reviewed_def contains_def ebind_def counted_def field_def get_item_def)
      next
        case (Inr x)
        with d s r Cons.IH[OF rest] show ?thesis
          by (simp add: reviewed_def contains_def ebind_def counted_def field_def get_item_def
              score_of_def entry_of_def)
      qed
    qed
  qed
qed

subsection \<open>Integer scores are summed exactly\<close>

lemma ndigits_le: "1 < b \<Longrightarrow> x < b ^ k \<Longrightarrow> ndigits b x \<le> int k"
proof (induction k arbitrary: x)
  case 0
  then show ?case by (simp add: ndigits.simps)
next
  case (Suc k)
  show ?case
  proof (cases "0 < x")
    case False
    then show ?thesis by (simp add: ndigits.simps)
  next
    case True
    have "x div b * b + x mod b = x"
      by (rule div_mult_mod_eq)
    moreover have "0 \<le> x mod b"
      using Suc.prems(1) by simp
    moreover have "x < b ^ k * b"
      using Suc.prems(2) by (simp add: mult.commute)
    ultimately have "x div b * b < b ^ k * b"
      by linarith
    then have "x div b < b ^ k"
      using Suc.prems(1) by (simp add: mult_less_cancel_right)
    from Suc.IH[OF Suc.prems(1) this] True Suc.prems(1) show ?thesis
      by (subst ndigits.simps) simp
  qed
qed

lemma ndigits_pos: "1 < b \<Longrightarrow> 0 < x \<Longrightarrow> 1 \<le> ndigits b x"
proof -
  assume b: "1 < b" and x: "0 < x"
  have "0 \<le> ndigits b y" for y
  proof (induction b y rule: ndigits.induct)
    case (1 b y)
    then show ?case by (subst ndigits.simps) auto
  qed
  then have "0 \<le> ndigits b (x div b)" .
  with b x show ?thesis by (subst ndigits.simps) simp
qed

lemma round_half_even_of_int: "round_half_even (of_int k) = k"
  by (simp add: round_half_even_def)

lemma floor_log_int_bounds:
  assumes "0 < n" and "n < 2 ^ 53"
  shows "- 1 \<le> floor_log 2 (of_int n) \<and> floor_log 2 (of_int n) \<le> 52"
proof -
  have one: "ndigits 2 1 = 1"
    by (simp add: ndigits.simps)
  have up: "ndigits 2 n \<le> 53"
    using ndigits_le[of 2 n 53] assms by simp
  have lo: "1 \<le> ndigits 2 n"
    using ndigits_pos[of 2 n] assms by simp
  show ?thesis
    using up lo one by (simp add: floor_log_def Let_def)
qed

lemma round_double_int:
  assumes "0 \<le> n" and "n < 2 ^ 53"
  shows "round_double (of_int n) = of_int n"
proof (cases "n = 0")
  case True
  then show ?thesis by (simp add: round_double_def)
next
  case False
  with assms have pos: "0 < n" by simp
  define e where "e = floor_log 2 (of_int n)"
  from floor_log_int_bounds[OF pos assms(2)] have e: "- 1 \<le> e" "e \<le> 52"
    by (simp_all add: e_def)
  define k where "k = nat (52 - e)"
  have ulp: "pow_int 2 (e - 52) = 1 / 2 ^ k"
  proof (cases "e = 52")
    case True
    then show ?thesis by (simp add: pow_int_def k_def)
  next
    case False
    with e have "e - 52 < 0" by simp
    then show ?thesis by (simp add: pow_int_def k_def)
  qed
  have "(of_int n :: rat) / (1 / 2 ^ k) = of_int (n * 2 ^ k)"
    by simp
  then have "round_half_even (of_int n / (1 / 2 ^ k)) = n * 2 ^ k"
    by (simp only: round_half_even_of_int)
  moreover have "max e (- 1022) = e"
    using e by simp
  ultimately show ?thesis
    using False ulp by (simp add: round_double_def Let_def e_def[symmetric])
qed

lemma to_float_int:
  assumes "0 \<le> n" and "n < 2 ^ 53"
  shows "to_float False (of_int n) = Finite False (of_int n)"
proof -
  have "(of_int n :: rat) < of_int (2 ^ 53)"
    using assms(2) by (simp only: of_int_less_iff)
  also have "(of_int (2 ^ 53) :: rat) \<le> 2 ^ 1024"
    by simp
  finally have "\<not> (2 :: rat) ^ 1024 \<le> of_int n"
    by simp
  then show ?thesis
    using round_double_int[OF assms] by (simp add: to_float_def pow_int_def)
qed

lemma py_float_int:
  "0 \<le> n \<Longrightarrow> n < 2 ^ 53 \<Longrightarrow> py_float (JInt n) = Inr (Finite False (of_int n))"
  by (simp add: py_float_def to_float_int)

lemma float_add_int:
  assumes "0 \<le> a" and "0 \<le> b" and "a + b < 2 ^ 53"
  shows "float_add (Finite False (of_int a)) (Finite False (of_int b)) = Finite False (of_int (a + b))"
proof -
  have "to_float False (of_int (a + b)) = Finite False (of_int (a + b))"
    using assms by (intro to_float_int) simp_all
  moreover have "\<not> (of_int a + of_int b :: rat) < 0"
    using assms by (simp add: not_less)
  moreover have "\<bar>of_int a + of_int b :: rat\<bar> = of_int (a + b)"
    using assms by simp
  ultimately show ?thesis
    by (simp add: signed_def Let_def)
qed

lemma foldl_float_add_int:
  assumes "list_all (\<lambda>n. 0 \<le> n) ns" and "0 \<le> a" and "a + sum_list ns < 2 ^ 53"
  shows "foldl float_add (Finite False (of_int a)) (map (\<lambda>n. Finite False (of_int n)) ns)
           = Finite False (of_int (a + sum_list ns))"
  using assms
proof (induction ns arbitrary: a)
  case Nil
  then show ?case by simp
next
  case (Cons n ns)
  from Cons.prems have n: "0 \<le> n" and rest: "list_all (\<lambda>n. 0 \<le> n) ns" by simp_all
  have s: "0 \<le> sum_list ns"
    using rest by (induction ns) auto
  from Cons.prems s n have small: "a + n < 2 ^ 53" by simp
  have "foldl float_add (Finite False (of_int (a + n))) (map (\<lambda>n. Finite False (of_int n)) ns)
      = Finite False (of_int ((a + n) + sum_list ns))"
    using Cons.prems n by (intro Cons.IH[OF rest]) (simp_all add: add.assoc)
  then show ?case
    using float_add_int[OF Cons.prems(2) n small] by (simp add: add.assoc)
qed

text \<open>The mean of non-negative integer scores whose sum is below \<open>2 ^ 53\<close>: the exact
  arithmetic mean, rounded once to a float.\<close>

lemma average_int:
  assumes "list_all (\<lambda>n. 0 \<le> n) ns" and "sum_list ns < 2 ^ 53"
  shows "average (map (\<lambda>n. Finite False (of_int n)) ns)
           = to_float False (of_int (sum_list ns) / of_nat (length ns))"
  using foldl_float_add_int[OF assms(1), of 0] assms(2)
  by (simp add: average_def py_sum_def float_div_int_def)

lemma elem_le_sum_list:
  "list_all (\<lambda>n. 0 \<le> n) ns \<Longrightarrow> n \<in> set ns \<Longrightarrow> n \<le> (sum_list ns :: int)"
proof (induction ns)
  case Nil
  then show ?case by simp
next
  case (Cons m ns)
  then have rest: "list_all (\<lambda>n. 0 \<le> n) ns" and m: "0 \<le> m" by simp_all
  have "0 \<le> sum_list ns"
    using rest by (induction ns) auto
  with Cons m rest show ?case by auto
qed

lemma scores_of_int_records:
  assumes "map (field ''user_score'') records = map (\<lambda>n. Some (JInt n)) ns"
    and "\<forall>n\<in>set ns. 0 \<le> n \<and> n < 2 ^ 53"
  shows "map score_of records = map (\<lambda>n. Finite False (of_int n)) ns"
  using assms
proof (induction records arbitrary: ns)
  case Nil
  then show ?case by simp
next
  case (Cons a records)
  then obtain n ns' where ns: "ns = n # ns'"
    by (cases ns) auto
  with Cons.prems have "field ''user_score'' a = Some (JInt n)" and "0 \<le> n" and "n < 2 ^ 53"
    by simp_all
  then have "score_of a = Finite False (of_int n)"
    by (simp add: score_of_def py_float_int)
  with Cons ns show ?case by simp
qed

lemma rewrite_and_save_calls:
  "\<exists>original r. RewriterCall original feedback r
      \<in> set (trace (snd (rewrite_and_save env None prompt_file feedback w)))"
proof -
  obtain original w1 where o: "(case files w prompt_file of
               Some text \<Rightarrow> (text, emit (FileRead prompt_file) w)
             | None \<Rightarrow> ([], w)) = (original, w1)"
    by fastforce
  obtain res w2 where a: "agent_improve_prompt env original feedback w1 = (res, w2)"
    by fastforce
  then have "RewriterCall original feedback (rewriter env (trace w1) original feedback)
      \<in> set (trace w2)"
    by (auto simp: agent_improve_prompt_def Let_def emit_def
        split: response.splits option.splits json.splits)
  then have "RewriterCall original feedback (rewriter env (trace w1) original feedback)
      \<in> set (trace (snd (rewrite_and_save env None prompt_file feedback w)))"
    using o a by (cases res) (simp_all add: rewrite_and_save_def emit_def)
  then show ?thesis by blast
qed

lemma improve_prompt_single_file:
  assumes "files w generated_json_path = Some file_content"
    and "json_loads file_content = Inr (JArray articles)"
    and "list_all is_object articles"
  shows "improve_prompt env generated_json_path None prompt_file w =
           (if filter counted articles = [] then
              (Inr False,
               emit (LogInfo ''No human feedback scores available to update prompt.'')
                 (emit (FileRead generated_json_path) w))
            else
              (Inr (fst (rewrite_and_save env None prompt_file
                     (feedback_section (map score_of (filter counted articles))
                        (map entry_of (filter counted articles)))
                     (emit (FileRead generated_json_path) w))),
               snd (rewrite_and_save env None prompt_file
                     (feedback_section (map score_of (filter counted articles))
                        (map entry_of (filter counted articles)))
                     (emit (FileRead generated_json_path) w))))"
  using assms collect_feedback_counted[OF assms(3), of "[]" "[]"]
  by (simp add: improve_prompt_def select_articles_def load_generated_def load_json_file_def
      iterate_def ebind_def split: prod.splits)

text \<open>
  Claim C8: on a set of records, the aggregation loop keeps exactly the records that carry
  both \<open>user_score\<close> and \<open>user_reasoning\<close> and whose score can be made a number, in input
  order; a record whose score cannot be coerced appears neither among the scores nor in
  the document. The document gives the mean of the kept scores, the float sum divided by
  their number, with two decimals, then one line \<open>Score: <one decimal> - <reasoning>\<close> per
  kept record. For non-negative integer scores the mean is the exact arithmetic mean
  rounded once to a float. The document is what \<^verbatim>\<open>improve_prompt\<close> hands to the rewriter,
  and without any kept record the rewriter is not called.
\<close>

theorem improve_prompt_feedback_document:
  assumes "list_all is_object articles"
  shows "collect_feedback articles [] [] =
           Inr (map score_of (filter counted articles), map entry_of (filter counted articles))
     \<and> feedback_section (map score_of (filter counted articles))
          (map entry_of (filter counted articles))
        = [CHR 0x0A, CHR 0x0A] @ ''=== Human Feedback Integration ==='' @ [CHR 0x0A]
          @ ''Average Human Score: ''
          @ format_fixed 2 (float_div_int (py_sum (map score_of (filter counted articles)))
                              (int (length (filter counted articles))))
          @ [CHR 0x0A] @ ''Detailed Feedback:'' @ [CHR 0x0A]
          @ concat (map (\<lambda>a. ''Score: '' @ format_fixed 1 (score_of a) @ '' - ''
                               @ py_str (the (field ''user_reasoning'' a)) @ [CHR 0x0A])
                      (filter counted articles))
     \<and> (map (field ''user_score'') (filter counted articles) = map (\<lambda>n. Some (JInt n)) ns
          \<longrightarrow> list_all (\<lambda>n. 0 \<le> n) ns \<longrightarrow> sum_list ns < 2 ^ 53 \<longrightarrow>
            float_div_int (py_sum (map score_of (filter counted articles)))
                (int (length (filter counted articles)))
              = to_float False (of_int (sum_list ns) / of_nat (length ns)))
     \<and> (files w generated_json_path = Some file_content \<longrightarrow>
        json_loads file_content = Inr (JArray articles) \<longrightarrow>
          (if filter counted articles = []
           then fst (improve_prompt env generated_json_path None prompt_file w) = Inr False
                \<and> files (snd (improve_prompt env generated_json_path None prompt_file w)) = files w
           else \<exists>original r.
                  RewriterCall original
                    (feedback_section (map score_of (filter counted articles))
                       (map entry_of (filter counted articles))) r
                  \<in> set (trace (snd (improve_prompt env generated_json_path None prompt_file w)))))"
proof -
  let ?S = "filter counted articles"
  have collect: "collect_feedback articles [] [] = Inr (map score_of ?S, map entry_of ?S)"
    using collect_feedback_counted[OF assms, of "[]" "[]"] by simp
  have doc: "feedback_section (map score_of ?S) (map entry_of ?S)
        = [CHR 0x0A, CHR 0x0A] @ ''=== Human Feedback Integration ==='' @ [CHR 0x0A]
          @ ''Average Human Score: ''
          @ format_fixed 2 (float_div_int (py_sum (map score_of ?S)) (int (length ?S)))
          @ [CHR 0x0A] @ ''Detailed Feedback:'' @ [CHR 0x0A]
          @ concat (map (\<lambda>a. ''Score: '' @ format_fixed 1 (score_of a) @ '' - ''
                               @ py_str (the (field ''user_reasoning'' a)) @ [CHR 0x0A]) ?S)"
    by (simp add: feedback_section_def average_def entry_of_def comp_def)
  have mean: "float_div_int (py_sum (map score_of ?S)) (int (length ?S))
              = to_float False (of_int (sum_list ns) / of_nat (length ns))"
    if m: "map (field ''user_score'') ?S = map (\<lambda>n. Some (JInt n)) ns"
      and nn: "list_all (\<lambda>n. 0 \<le> n) ns" and small: "sum_list ns < 2 ^ 53"
  proof -
    have "\<forall>n\<in>set ns. 0 \<le> n \<and> n < 2 ^ 53"
      using nn small elem_le_sum_list[OF nn] by (fastforce simp: list_all_iff)
    from scores_of_int_records[OF m this]
    have s: "map score_of ?S = map (\<lambda>n. Finite False (of_int n)) ns" .
    from m have "length ?S = length ns"
      by (rule map_eq_imp_length_eq)
    with average_int[OF nn small] s show ?thesis
      by (simp add: average_def)
  qed
  have run: "if ?S = []
           then fst (improve_prompt env generated_json_path None prompt_file w) = Inr False
                \<and> files (snd (improve_prompt env generated_json_path None prompt_file w)) = files w
           else \<exists>original r.
                  RewriterCall original (feedback_section (map score_of ?S) (map entry_of ?S)) r
                  \<in> set (trace (snd (improve_prompt env generated_json_path None prompt_file w)))"
    if f: "files w generated_json_path = Some file_content"
      and j: "json_loads file_content = Inr (JArray articles)"
    using improve_prompt_single_file[OF f j assms, of env prompt_file]
      rewrite_and_save_calls[of "feedback_section (map score_of ?S) (map entry_of ?S)"
        env prompt_file "emit (FileRead generated_json_path) w"]
    by (cases "?S = []") (simp_all add: emit_def)
  from collect doc mean run show ?thesis by blast
qed

theorem improve_prompt_feedback_document_witness:
  "collect_feedback reviewed_records [] [] =
     Inr ([Finite False 6, Finite False 8],
          [''Score: 6.0 - local only'', ''Score: 8.0 - urgent''])
   \<and> float_div_int (py_sum [Finite False 6, Finite False 8]) 2 = Finite False 7
   \<and> feedback_section [Finite False 6, Finite False 8]
        [''Score: 6.0 - local only'', ''Score: 8.0 - urgent'']
      = [CHR 0x0A, CHR 0x0A] @ ''=== Human Feedback Integration ==='' @ [CHR 0x0A]
        @ ''Average Human Score: 7.00'' @ [CHR 0x0A]
        @ ''Detailed Feedback:'' @ [CHR 0x0A]
        @ ''Score: 6.0 - local only'' @ [CHR 0x0A]
        @ ''Score: 8.0 - urgent'' @ [CHR 0x0A]
   \<and> (\<exists>original r.
         RewriterCall original
           ([CHR 0x0A, CHR 0x0A] @ ''=== Human Feedback Integration ==='' @ [CHR 0x0A]
            @ ''Average Human Score: 7.00'' @ [CHR 0x0A]
            @ ''Detailed Feedback:'' @ [CHR 0x0A]
            @ ''Score: 6.0 - local only'' @ [CHR 0x0A]
            @ ''Score: 8.0 - urgent'' @ [CHR 0x0A]) r
         \<in> set (trace (snd (improve_prompt (rewriting ''Prefer urgent stories. {state}'')
                    reviewed_path None prompt_path reviewed_world))))"
proof -
  define S where "S = filter counted reviewed_records"
  have records: "list_all is_object reviewed_records"
    by code_simp
  have sc: "map score_of S = [Finite False 6, Finite False 8]"
    unfolding S_def by code_simp
  have en: "map entry_of S = [''Score: 6.0 - local only'', ''Score: 8.0 - urgent'']"
    unfolding S_def by code_simp
  have us: "map (field ''user_score'') S = map (\<lambda>n. Some (JInt n)) [6, 8]"
    unfolding S_def by code_simp
  have len: "int (length S) = 2"
    unfolding S_def by code_simp
  have ne: "S \<noteq> []"
    using sc by auto
  have seven: "to_float False (of_int (sum_list [6, 8]) / of_nat (length [6 :: int, 8]))
      = Finite False 7"
    by code_simp
  have doc: "feedback_section [Finite False 6, Finite False 8]
        [''Score: 6.0 - local only'', ''Score: 8.0 - urgent'']
      = [CHR 0x0A, CHR 0x0A] @ ''=== Human Feedback Integration ==='' @ [CHR 0x0A]
        @ ''Average Human Score: 7.00'' @ [CHR 0x0A]
        @ ''Detailed Feedback:'' @ [CHR 0x0A]
        @ ''Score: 6.0 - local only'' @ [CHR 0x0A]
        @ ''Score: 8.0 - urgent'' @ [CHR 0x0A]"
    by code_simp
  have f: "files reviewed_world reviewed_path = Some (the (files reviewed_world reviewed_path))"
    by code_simp
  have j: "json_loads (the (files reviewed_world reviewed_path)) = Inr (JArray reviewed_records)"
    by code_simp
  note t = improve_prompt_feedback_document[OF records,
      of "[6, 8]" reviewed_world reviewed_path "the (files reviewed_world reviewed_path)"
         "rewriting ''Prefer urgent stories. {state}''" prompt_path, folded S_def]
  from t have "collect_feedback reviewed_records [] [] = Inr (map score_of S, map entry_of S)"
    by (rule conjunct1)
  then have c1: "collect_feedback reviewed_records [] [] =
     Inr ([Finite False 6, Finite False 8],
          [''Score: 6.0 - local only'', ''Score: 8.0 - urgent''])"
    by (simp only: sc en)
  have nn: "list_all (\<lambda>n. 0 \<le> n) [6 :: int, 8]" and sm: "sum_list [6 :: int, 8] < 2 ^ 53"
    by simp_all
  note t3 = t[THEN conjunct2, THEN conjunct2, THEN conjunct1, rule_format]
  from t3[OF us nn sm] have "float_div_int (py_sum (map score_of S)) (int (length S))
      = to_float False (of_int (sum_list [6, 8]) / of_nat (length [6 :: int, 8]))" .
  then have c2: "float_div_int (py_sum [Finite False 6, Finite False 8]) 2 = Finite False 7"
    by (simp only: sc len seven)
  note t4 = t[THEN conjunct2, THEN conjunct2, THEN conjunct2, rule_format]
  from t4[OF f j] ne have "\<exists>original r.
      RewriterCall original (feedback_section (map score_of S) (map entry_of S)) r
      \<in> set (trace (snd (improve_prompt (rewriting ''Prefer urgent stories. {state}'')
                    reviewed_path None prompt_path reviewed_world)))"
    by (simp only: if_False)
  then have c4: "\<exists>original r.
      RewriterCall original (feedback_section [Finite False 6, Finite False 8]
        [''Score: 6.0 - local only'', ''Score: 8.0 - urgent'']) r
      \<in> set (trace (snd (improve_prompt (rewriting ''Prefer urgent stories. {state}'')
                    reviewed_path None prompt_path reviewed_world)))"
    by (simp only: sc en)
  from c4 have c4': "\<exists>original r.
         RewriterCall original
           ([CHR 0x0A, CHR 0x0A] @ ''=== Human Feedback Integration ==='' @ [CHR 0x0A]
            @ ''Average Human Score: 7.00'' @ [CHR 0x0A]
            @ ''Detailed Feedback:'' @ [CHR 0x0A]
            @ ''Score: 6.0 - local only'' @ [CHR 0x0A]
            @ ''Score: 8.0 - urgent'' @ [CHR 0x0A]) r
         \<in> set (trace (snd (improve_prompt (rewriting ''Prefer urgent stories. {state}'')
                    reviewed_path None prompt_path reviewed_world)))"
    by (simp only: doc)
  show ?thesis
    by (intro conjI) (rule c1, rule c2, rule doc, rule c4')
qed

end
